theory Spec2Isabelle
  imports Main
begin

section \<open>JavaScript strings and values\<close>

text \<open>
  Strings are lists of 8-bit characters: the model covers strings whose code units lie
  in the Latin-1 range. An exception value carries its \<open>message\<close>. The outcome of
  awaiting a promise, or of running a block that may throw, is a sum: \<open>Inl e\<close> is the
  rejection or throw with error \<open>e\<close>, \<open>Inr v\<close> the value.
\<close>

datatype js_error = JsError (message: string)

text \<open>The characters matched by the regular-expression class \<open>\s\<close> (and stripped by
  \<open>trim\<close>) below code unit 256: TAB, LF, VT, FF, CR, SPACE and NBSP.\<close>

definition isWhiteSpace :: "char \<Rightarrow> bool" where
  "isWhiteSpace c \<longleftrightarrow>
     c \<in> set [CHR 0x09, CHR 0x0A, CHR 0x0B, CHR 0x0C, CHR 0x0D, CHR 0x20, CHR 0xA0]"

text \<open>\<open>s.replace(/C+/g, r)\<close> for a character class \<open>C\<close>: every maximal run of characters
  of the class is replaced by one copy of \<open>r\<close>.\<close>

function replaceRuns :: "(char \<Rightarrow> bool) \<Rightarrow> string \<Rightarrow> string \<Rightarrow> string" where
  "replaceRuns C r [] = []"
| "replaceRuns C r (c # cs) =
     (if C c then r @ replaceRuns C r (dropWhile C cs) else c # replaceRuns C r cs)"
  by pat_completeness auto
termination
  by (relation "measure (\<lambda>(C, r, s). length s)")
     (auto simp: length_dropWhile_le less_Suc_eq_le)

text \<open>\<open>x || d\<close> for a string-valued property \<open>x\<close> that may be absent (\<open>None\<close>):
  \<open>undefined\<close>, \<open>null\<close> and the empty string are falsy.\<close>

definition orDefault :: "string option \<Rightarrow> string \<Rightarrow> string" where
  "orDefault x d = (case x of None \<Rightarrow> d | Some s \<Rightarrow> if s = [] then d else s)"

text \<open>Decimal rendering of a non-negative integer, as a template literal prints
  \<open>Date.now()\<close>.\<close>

definition digitChar :: "nat \<Rightarrow> char" where
  "digitChar n = ''0123456789'' ! (n mod 10)"

function showNat :: "nat \<Rightarrow> string" where
  "showNat n = (if n < 10 then [digitChar n] else showNat (n div 10) @ [digitChar n])"
  by pat_completeness auto
termination
  by (relation "measure id") auto

declare showNat.simps [simp del]

section \<open>RegistrationService.generateDeviceId\<close>

text \<open>The fields of the collected device-metadata object that the identifier logic
  reads. \<open>platform\<close> is \<open>Platform.OS\<close>.\<close>

record device_info =
  manufacturer :: "string option"
  modelName :: "string option"
  platform :: string

text \<open>
  \<^verbatim>\<open>
  static generateDeviceId(deviceInfo) {
    try {
      const manufacturer = (deviceInfo.manufacturer || 'Apple').replace(/\s+/g, '');
      const model = (deviceInfo.modelName || 'Unknown').replace(/\s+/g, '_');
      const deviceId = `${manufacturer}_${model}_iOS`;
      return deviceId;
    } catch (error) {
      return `Apple_Unknown_iOS_${Date.now()}`;
    }
  }
  \<close>
  The argument is \<open>None\<close> when the caller passes \<open>null\<close> or \<open>undefined\<close>: the property
  access throws and the handler answers. \<open>now\<close> is the value of \<open>Date.now()\<close>.
\<close>

definition generateDeviceId_try :: "device_info option \<Rightarrow> js_error + string" where
  "generateDeviceId_try deviceInfo =
     (case deviceInfo of
        None \<Rightarrow> Inl (JsError ''Cannot read properties of undefined'')
      | Some info \<Rightarrow>
          (let manufacturer' = replaceRuns isWhiteSpace [] (orDefault (manufacturer info) ''Apple'');
               model = replaceRuns isWhiteSpace ''_'' (orDefault (modelName info) ''Unknown'')
           in Inr (manufacturer' @ ''_'' @ model @ ''_iOS'')))"

definition generateDeviceId :: "device_info option \<Rightarrow> nat \<Rightarrow> string" where
  "generateDeviceId deviceInfo now =
     (case generateDeviceId_try deviceInfo of
        Inr deviceId \<Rightarrow> deviceId
      | Inl err \<Rightarrow> ''Apple_Unknown_iOS_'' @ showNat now)"

text \<open>The format as the specification words it: \<open>{manufacturer}_{model}_{platformTag}\<close>,
  runs of non-alphanumeric characters of the two tokens normalized to underscores, the
  tag being the running platform.\<close>

definition isAlphaNum :: "char \<Rightarrow> bool" where
  "isAlphaNum c \<longleftrightarrow>
     c \<in> set (''abcdefghijklmnopqrstuvwxyz'' @ ''ABCDEFGHIJKLMNOPQRSTUVWXYZ'' @ ''0123456789'')"

definition spec_normalize :: "string \<Rightarrow> string" where
  "spec_normalize s = replaceRuns (\<lambda>c. \<not> isAlphaNum c) ''_'' s"

definition spec_deviceId :: "string \<Rightarrow> string \<Rightarrow> string \<Rightarrow> string" where
  "spec_deviceId manu model platformTag =
     spec_normalize manu @ ''_'' @ spec_normalize model @ ''_'' @ platformTag"

section \<open>CommandPollingService: the device identifier\<close>

text \<open>
  The module variable \<open>cachedDeviceId\<close> is the process-local cache; \<open>storage\<close> is the
  durable key-value store behind \<open>AsyncStorage\<close>, which outlives the process.
\<close>

definition DEVICE_ID_KEY :: string where
  "DEVICE_ID_KEY = ''@registered_device_id''"

record ident_state =
  cachedDeviceId :: "string option"
  deviceIdLogged :: bool
  storage :: "string \<rightharpoonup> string"

text \<open>What the outside world answers during one call of \<open>getDeviceId\<close>: whether
  \<open>AsyncStorage.getItem\<close> and \<open>setItem\<close> reject, what
  \<open>RegistrationService.collectDeviceInfo()\<close> resolves to, \<open>Platform.OS\<close> and
  \<open>Date.now()\<close>.\<close>

record ident_env =
  getItemFails :: "js_error option"
  collectDeviceInfo :: "js_error + device_info"
  setItemFails :: "js_error option"
  platformOS :: string
  dateNow :: nat

text \<open>
  The body of the \<open>try\<close> block of \<open>getDeviceId\<close> (lines 60 to 87). \<open>truthy x\<close> is
  the string \<open>x\<close> when \<open>if (x)\<close> succeeds: when it is neither absent nor empty. The
  result is the value returned or the error thrown, with the state at that point.
\<close>

definition truthy :: "string option \<Rightarrow> string option" where
  "truthy x = (case x of None \<Rightarrow> None | Some v \<Rightarrow> if v = [] then None else Some v)"

definition getDeviceId_try :: "ident_env \<Rightarrow> ident_state \<Rightarrow> (js_error + string) \<times> ident_state" where
  "getDeviceId_try env s =
     (case truthy (cachedDeviceId s) of
        Some cached \<Rightarrow> (Inr cached, s)
      | None \<Rightarrow>
        (case getItemFails env of
           Some e \<Rightarrow> (Inl e, s)
         | None \<Rightarrow>
             (case truthy (storage s DEVICE_ID_KEY) of
                Some storedDeviceId \<Rightarrow>
                  (Inr storedDeviceId,
                   s\<lparr>cachedDeviceId := Some storedDeviceId, deviceIdLogged := True\<rparr>)
              | None \<Rightarrow>
                (let s1 = s\<lparr>deviceIdLogged := True\<rparr> in
                 case collectDeviceInfo env of
                   Inl e \<Rightarrow> (Inl e, s1)
                 | Inr deviceInfo \<Rightarrow>
                     (let deviceId = generateDeviceId (Some deviceInfo) (dateNow env) in
                      case setItemFails env of
                        Some e \<Rightarrow> (Inl e, s1)
                      | None \<Rightarrow>
                          (Inr deviceId,
                           s1\<lparr>storage := (storage s1)(DEVICE_ID_KEY \<mapsto> deviceId),
                              cachedDeviceId := Some deviceId\<rparr>))))))"

text \<open>
  \<open>getDeviceId\<close> with its handler (lines 88 to 95): any failure yields the fallback
  \<^verbatim>\<open>`Fallback_${Platform.OS}_${Date.now()}`\<close>, which is cached and not persisted.
\<close>

definition getDeviceId :: "ident_env \<Rightarrow> ident_state \<Rightarrow> string \<times> ident_state" where
  "getDeviceId env s =
     (case getDeviceId_try env s of
        (Inr deviceId, s') \<Rightarrow> (deviceId, s')
      | (Inl err, s') \<Rightarrow>
          (let fallbackId = ''Fallback_'' @ platformOS env @ ''_'' @ showNat (dateNow env)
           in (fallbackId, s'\<lparr>cachedDeviceId := Some fallbackId\<rparr>)))"

text \<open>\<open>storeDeviceId\<close> (lines 101 to 110), called after a successful registration.\<close>

definition storeDeviceId :: "js_error option \<Rightarrow> string \<Rightarrow> ident_state \<Rightarrow> ident_state" where
  "storeDeviceId setFails deviceId s =
     (case setFails of
        Some e \<Rightarrow> s
      | None \<Rightarrow> s\<lparr>storage := (storage s)(DEVICE_ID_KEY \<mapsto> deviceId),
                    cachedDeviceId := Some deviceId, deviceIdLogged := False\<rparr>)"

text \<open>A restart of the process loses the module variables and keeps the durable store.\<close>

definition restart :: "ident_state \<Rightarrow> ident_state" where
  "restart s = s\<lparr>cachedDeviceId := None, deviceIdLogged := False\<rparr>"

text \<open>Consecutive calls of \<open>getDeviceId\<close>, one environment for each call; the identifiers
  returned, in order, and the final state.\<close>

fun getDeviceIds :: "ident_env list \<Rightarrow> ident_state \<Rightarrow> string list \<times> ident_state" where
  "getDeviceIds [] s = ([], s)"
| "getDeviceIds (env # envs) s =
     (let (deviceId, s1) = getDeviceId env s;
          (ids, s2) = getDeviceIds envs s1
      in (deviceId # ids, s2))"

section \<open>AudioService: the recording session\<close>

text \<open>
  A handle names one \<open>Audio.Recording\<close> object; the \<open>k\<close>-th object constructed by
  \<open>new Audio.Recording()\<close> is handle \<open>k\<close>, and \<open>allocated\<close> counts the constructions.
  The module variable \<open>recording\<close> holds the current handle or \<open>null\<close>. \<open>effects\<close> is the
  trace of calls made to the capture, upload and notification collaborators, oldest
  first; \<open>timers\<close> are the auto-stop callbacks registered with \<open>setTimeout\<close>, in the
  order of registration. The functions \<open>startRecording\<close>, \<open>stopRecording\<close>,
  \<open>triggerRecording\<close> and \<open>autoStop\<close> below each describe one call during which no other
  call of the module runs; what happens when another call of \<open>startRecording\<close> runs
  between two awaits of the first is described by \<open>startStep\<close> and \<open>interleave\<close>.
\<close>

type_synonym handle = nat

record recording_status =
  isRecording :: bool
  durationMillis :: nat

datatype effect =
    StopAndUnload handle
  | CleanupErrorLogged string
  | RequestPermissions
  | SetAudioMode
  | NewRecording handle
  | PrepareToRecord handle
  | StartAsync handle
  | UploadAudio string nat
  | NotifyRecordingStatus string string string

record timer =
  delayMillis :: int
  triggerType :: string

record audio_state =
  recording :: "handle option"
  allocated :: nat
  effects :: "effect list"
  timers :: "timer list"

definition emit :: "effect list \<Rightarrow> audio_state \<Rightarrow> audio_state" where
  "emit es s = s\<lparr>effects := effects s @ es\<rparr>"

text \<open>The result object of \<open>startRecording\<close> and \<open>triggerRecording\<close>; a property that
  the object does not carry is \<open>None\<close>.\<close>

record start_result =
  success :: bool
  alreadyRecording :: "bool option"
  resultMessage :: "string option"
  error :: "string option"

definition succeeded :: start_result where
  "succeeded = \<lparr>success = True, alreadyRecording = None, resultMessage = None, error = None\<rparr>"

definition failed :: "string \<Rightarrow> start_result" where
  "failed msg = \<lparr>success = False, alreadyRecording = None, resultMessage = None, error = Some msg\<rparr>"

text \<open>What the capture collaborator answers during one call of \<open>startRecording\<close>, in
  the order of the calls: the status of the existing handle (line 29), the release of a
  stale handle (lines 41 and 48), the permission request, \<open>setAudioModeAsync\<close>,
  \<open>prepareToRecordAsync\<close>, \<open>startAsync\<close> and the status re-query (line 113).\<close>

record start_env =
  existingStatus :: "js_error + recording_status"
  cleanupReply :: "js_error + unit"
  permissionReply :: "js_error + bool"
  setAudioModeReply :: "js_error + unit"
  prepareReply :: "js_error + unit"
  startReply :: "js_error + unit"
  verifyStatus :: "js_error + recording_status"

text \<open>A status reply confirms that the session is active when it resolves with
  \<open>isRecording\<close> true.\<close>

definition reportsRecording :: "js_error + recording_status \<Rightarrow> bool" where
  "reportsRecording reply \<longleftrightarrow> (case reply of Inl _ \<Rightarrow> False | Inr status \<Rightarrow> isRecording status)"

text \<open>The best-effort release of lines 40 to 44 (and 47 to 51): the call is made, and a
  rejection is logged and dropped.\<close>

definition cleanupStale :: "js_error + unit \<Rightarrow> handle \<Rightarrow> audio_state \<Rightarrow> audio_state" where
  "cleanupStale reply h s =
     (case reply of
        Inr _ \<Rightarrow> emit [StopAndUnload h] s
      | Inl cleanupError \<Rightarrow> emit [StopAndUnload h, CleanupErrorLogged (message cleanupError)] s)"

text \<open>Lines 26 to 54, the check of an existing handle: \<open>Inl r\<close> is the early return of
  line 32, \<open>Inr s\<close> falls through with the handle cleared.\<close>

definition checkExisting :: "start_env \<Rightarrow> audio_state \<Rightarrow> start_result + audio_state" where
  "checkExisting env s =
     (case recording s of
        None \<Rightarrow> Inr s
      | Some h \<Rightarrow>
          (case existingStatus env of
             Inr status \<Rightarrow>
               if isRecording status then
                 Inl (succeeded\<lparr>alreadyRecording := Some True,
                                resultMessage := Some ''Recording already in progress''\<rparr>)
               else Inr ((cleanupStale (cleanupReply env) h s)\<lparr>recording := None\<rparr>)
           | Inl statusError \<Rightarrow> Inr ((cleanupStale (cleanupReply env) h s)\<lparr>recording := None\<rparr>)))"

text \<open>Lines 56 to 129, from the permission request to the final return.\<close>

definition startFresh :: "start_env \<Rightarrow> audio_state \<Rightarrow> (js_error + start_result) \<times> audio_state" where
  "startFresh env s =
     (let s1 = emit [RequestPermissions] s in
      case permissionReply env of
        Inl e \<Rightarrow> (Inl e, s1)
      | Inr granted \<Rightarrow>
          if \<not> granted then (Inr (failed ''Audio recording permission not granted''), s1)
          else
            (let s2 = emit [SetAudioMode] s1 in
             case setAudioModeReply env of
               Inl e \<Rightarrow> (Inl e, s2)
             | Inr _ \<Rightarrow>
                 (let h = allocated s2;
                      s3 = (emit [NewRecording h, PrepareToRecord h] s2)
                             \<lparr>recording := Some h, allocated := Suc h\<rparr>
                  in case prepareReply env of
                       Inl e \<Rightarrow> (Inl e, s3)
                     | Inr _ \<Rightarrow>
                         (let s4 = emit [StartAsync h] s3 in
                          case startReply env of
                            Inl e \<Rightarrow> (Inl e, s4)
                          | Inr _ \<Rightarrow>
                              (case verifyStatus env of
                                 Inl e \<Rightarrow> (Inl e, s4)
                               | Inr status \<Rightarrow>
                                   if \<not> isRecording status then
                                     (Inr (failed ''Recording start command failed - status shows not recording''),
                                      s4\<lparr>recording := None\<rparr>)
                                   else (Inr succeeded, s4))))))"

definition startRecording_try :: "start_env \<Rightarrow> audio_state \<Rightarrow> (js_error + start_result) \<times> audio_state" where
  "startRecording_try env s =
     (case checkExisting env s of
        Inl r \<Rightarrow> (Inr r, s)
      | Inr s' \<Rightarrow> startFresh env s')"

text \<open>\<open>e.message || d\<close>.\<close>

definition messageOr :: "js_error \<Rightarrow> string \<Rightarrow> string" where
  "messageOr e d = (if message e = [] then d else message e)"

text \<open>\<open>startRecording\<close> with the handler of lines 130 to 136.\<close>

definition startRecording :: "start_env \<Rightarrow> audio_state \<Rightarrow> (js_error + start_result) \<times> audio_state" where
  "startRecording env s =
     (case startRecording_try env s of
        (Inr r, s') \<Rightarrow> (Inr r, s')
      | (Inl err, s') \<Rightarrow>
          (Inr (failed (messageOr err ''Unknown error starting recording'')),
           s'\<lparr>recording := None\<rparr>))"

text \<open>Calls of \<open>startRecording\<close> each awaited before the next is issued, as in
  \<^verbatim>\<open>await startRecording(); await startRecording();\<close>, with no other operation in
  between; one environment for each call.\<close>

fun startRecordingsAwaited ::
  "start_env list \<Rightarrow> audio_state \<Rightarrow> (js_error + start_result) list \<times> audio_state" where
  "startRecordingsAwaited [] s = ([], s)"
| "startRecordingsAwaited (env # envs) s =
     (let (r, s1) = startRecording env s;
          (rs, s2) = startRecordingsAwaited envs s1
      in (r # rs, s2))"

subsection \<open>startRecording between its awaits\<close>

text \<open>
  \<open>startRecording\<close> is an \<open>async\<close> function: it suspends at each \<open>await\<close>, and while it is
  suspended another call may run. Nothing serialises the callers (the socket handler of
  CommandService calls \<open>startRecording()\<close> without awaiting it, and poll cycles may
  overlap). A call in flight is at one of these points: not yet entered, suspended at
  one of the seven awaits, or returned.
\<close>

datatype start_pc =
    Entry
  | AwaitExistingStatus
  | AwaitCleanup
  | AwaitPermission
  | AwaitSetAudioMode
  | AwaitPrepare
  | AwaitStart
  | AwaitVerify
  | Returned "js_error + start_result"

text \<open>The handler of lines 130 to 136, as a step.\<close>

definition startCaught :: "js_error \<Rightarrow> audio_state \<Rightarrow> start_pc \<times> audio_state" where
  "startCaught err s =
     (Returned (Inr (failed (messageOr err ''Unknown error starting recording''))),
      s\<lparr>recording := None\<rparr>)"

text \<open>Lines 53 to 57, reached after the check of an existing handle: clear the handle and
  request the permission.\<close>

definition clearAndRequest :: "audio_state \<Rightarrow> start_pc \<times> audio_state" where
  "clearAndRequest s = (AwaitPermission, emit [RequestPermissions] (s\<lparr>recording := None\<rparr>))"

text \<open>
  One step of a call: resumed with the answer to the await it is suspended at, it runs
  to its next await or to its return. Every expression \<open>recording.f()\<close> reads the module
  variable when it is evaluated; on \<open>null\<close> it throws a \<open>TypeError\<close>, which the enclosing
  \<open>try\<close> catches.
\<close>

definition startStep :: "start_env \<Rightarrow> start_pc \<Rightarrow> audio_state \<Rightarrow> start_pc \<times> audio_state" where
  "startStep env pc s =
     (case pc of
        Entry \<Rightarrow>
          (case recording s of
             None \<Rightarrow> (AwaitPermission, emit [RequestPermissions] s)
           | Some h \<Rightarrow> (AwaitExistingStatus, s))
      | AwaitExistingStatus \<Rightarrow>
          (if reportsRecording (existingStatus env) then
             (Returned (Inr (succeeded\<lparr>alreadyRecording := Some True,
                                       resultMessage := Some ''Recording already in progress''\<rparr>)), s)
           else
             (case recording s of
                None \<Rightarrow>
                  clearAndRequest (emit [CleanupErrorLogged ''Cannot read properties of null''] s)
              | Some h \<Rightarrow> (AwaitCleanup, emit [StopAndUnload h] s)))
      | AwaitCleanup \<Rightarrow>
          (case cleanupReply env of
             Inr _ \<Rightarrow> clearAndRequest s
           | Inl cleanupError \<Rightarrow>
               clearAndRequest (emit [CleanupErrorLogged (message cleanupError)] s))
      | AwaitPermission \<Rightarrow>
          (case permissionReply env of
             Inl e \<Rightarrow> startCaught e s
           | Inr granted \<Rightarrow>
               if \<not> granted then
                 (Returned (Inr (failed ''Audio recording permission not granted'')), s)
               else (AwaitSetAudioMode, emit [SetAudioMode] s))
      | AwaitSetAudioMode \<Rightarrow>
          (case setAudioModeReply env of
             Inl e \<Rightarrow> startCaught e s
           | Inr _ \<Rightarrow>
               (let h = allocated s
                in (AwaitPrepare,
                    (emit [NewRecording h, PrepareToRecord h] s)
                      \<lparr>recording := Some h, allocated := Suc h\<rparr>)))
      | AwaitPrepare \<Rightarrow>
          (case prepareReply env of
             Inl e \<Rightarrow> startCaught e s
           | Inr _ \<Rightarrow>
               (case recording s of
                  None \<Rightarrow> startCaught (JsError ''Cannot read properties of null'') s
                | Some h \<Rightarrow> (AwaitStart, emit [StartAsync h] s)))
      | AwaitStart \<Rightarrow>
          (case startReply env of
             Inl e \<Rightarrow> startCaught e s
           | Inr _ \<Rightarrow>
               (case recording s of
                  None \<Rightarrow> startCaught (JsError ''Cannot read properties of null'') s
                | Some h \<Rightarrow> (AwaitVerify, s)))
      | AwaitVerify \<Rightarrow>
          (case verifyStatus env of
             Inl e \<Rightarrow> startCaught e s
           | Inr status \<Rightarrow>
               if \<not> isRecording status then
                 (Returned (Inr (failed ''Recording start command failed - status shows not recording'')),
                  s\<lparr>recording := None\<rparr>)
               else (Returned (Inr succeeded), s))
      | Returned r \<Rightarrow> (Returned r, s))"

text \<open>A call run for up to \<open>n\<close> steps with nothing else in between.\<close>

fun runCall :: "nat \<Rightarrow> start_env \<Rightarrow> start_pc \<Rightarrow> audio_state \<Rightarrow> start_pc \<times> audio_state" where
  "runCall 0 env pc s = (pc, s)"
| "runCall (Suc n) env pc s = (case startStep env pc s of (pc', s') \<Rightarrow> runCall n env pc' s')"

text \<open>Calls in flight, each with its environment and the point it is at, and a
  schedule: the order in which the event loop resumes them, by position in the list.\<close>

fun resume :: "nat \<Rightarrow> (start_env \<times> start_pc) list \<Rightarrow> audio_state \<Rightarrow>
    (start_env \<times> start_pc) list \<times> audio_state" where
  "resume i [] s = ([], s)"
| "resume 0 ((env, pc) # calls) s =
     (case startStep env pc s of (pc', s') \<Rightarrow> ((env, pc') # calls, s'))"
| "resume (Suc i) (call # calls) s =
     (case resume i calls s of (calls', s') \<Rightarrow> (call # calls', s'))"

fun interleave :: "nat list \<Rightarrow> (start_env \<times> start_pc) list \<Rightarrow> audio_state \<Rightarrow>
    (start_env \<times> start_pc) list \<times> audio_state" where
  "interleave [] calls s = (calls, s)"
| "interleave (i # schedule) calls s =
     (case resume i calls s of (calls', s') \<Rightarrow> interleave schedule calls' s')"

subsection \<open>stopRecording\<close>

text \<open>What the collaborators answer during one call of \<open>stopRecording\<close>: the status
  query of line 147, the release of a handle that is not recording (line 152), the
  release of line 164, \<open>getURI()\<close>, the final status (line 166) and
  \<open>fetchLocationAndUploadAudio\<close>.\<close>

record stop_env =
  stopStatus :: "js_error + recording_status"
  stopCleanupReply :: "js_error + unit"
  stopAndUnloadReply :: "js_error + unit"
  recordedURI :: "string option"
  finalStatus :: "js_error + recording_status"
  uploadReply :: "js_error + unit"

text \<open>Lines 146 to 181, entered with the handle \<open>h\<close> that \<open>recording\<close> holds. The upload
  effect records the duration in milliseconds; the source passes \<open>durationMillis / 1000\<close>
  seconds.\<close>

definition stopRecording_try :: "stop_env \<Rightarrow> handle \<Rightarrow> audio_state \<Rightarrow> (js_error + string option) \<times> audio_state" where
  "stopRecording_try env h s =
     (case stopStatus env of
        Inl e \<Rightarrow> (Inl e, s)
      | Inr status \<Rightarrow>
          if \<not> isRecording status then
            (Inr None, (cleanupStale (stopCleanupReply env) h s)\<lparr>recording := None\<rparr>)
          else
            (let s1 = emit [StopAndUnload h] (s\<lparr>recording := None\<rparr>) in
             case stopAndUnloadReply env of
               Inl e \<Rightarrow> (Inl e, s1)
             | Inr _ \<Rightarrow>
                 (let uri = recordedURI env in
                  case finalStatus env of
                    Inl e \<Rightarrow> (Inl e, s1)
                  | Inr final \<Rightarrow>
                      (case truthy uri of
                         None \<Rightarrow> (Inr uri, s1)
                       | Some u \<Rightarrow>
                           (let s2 = emit [UploadAudio u (durationMillis final)] s1 in
                            case uploadReply env of
                              Inl e \<Rightarrow> (Inl e, s2)
                            | Inr _ \<Rightarrow> (Inr uri, s2))))))"

text \<open>\<open>stopRecording\<close>: the guard of lines 140 to 143 and the handler of lines 182 to
  188. The value is the artifact URI or \<open>null\<close>.\<close>

definition stopRecording :: "stop_env \<Rightarrow> audio_state \<Rightarrow> (js_error + string option) \<times> audio_state" where
  "stopRecording env s =
     (case recording s of
        None \<Rightarrow> (Inr None, s)
      | Some h \<Rightarrow>
          (case stopRecording_try env h s of
             (Inr uri, s') \<Rightarrow> (Inr uri, s')
           | (Inl err, s') \<Rightarrow> (Inr None, s'\<lparr>recording := None\<rparr>)))"

subsection \<open>triggerRecording and its deferred stop\<close>

text \<open>\<open>durationSeconds\<close> is an integer, or \<open>None\<close> for \<open>null\<close> and \<open>undefined\<close>. Line 448:
  \<^verbatim>\<open>const isContinuous = !durationSeconds || durationSeconds === null || durationSeconds === 0;\<close>\<close>

definition isContinuous :: "int option \<Rightarrow> bool" where
  "isContinuous durationSeconds \<longleftrightarrow>
     (case durationSeconds of None \<Rightarrow> True | Some d \<Rightarrow> d = 0)"

definition recordingMode :: "int option \<Rightarrow> string" where
  "recordingMode durationSeconds = (if isContinuous durationSeconds then ''continuous'' else ''timed'')"

text \<open>Lines 447 to 499. \<open>notifyRecordingStatus\<close> catches its own failures, so it is an
  effect with no failure branch. The \<open>setTimeout\<close> of line 484 registers a timer.\<close>

definition triggerRecording_try ::
  "string \<Rightarrow> int option \<Rightarrow> start_env \<Rightarrow> audio_state \<Rightarrow> (js_error + start_result) \<times> audio_state" where
  "triggerRecording_try trigger durationSeconds env s =
     (case startRecording env s of
        (Inl e, s1) \<Rightarrow> (Inl e, s1)
      | (Inr result, s1) \<Rightarrow>
          if \<not> success result then
            (Inr (failed (orDefault (error result) ''Unknown error starting recording'')), s1)
          else if alreadyRecording result = Some True then
            (Inr (succeeded\<lparr>alreadyRecording := Some True\<rparr>),
             emit [NotifyRecordingStatus ''recording_already_active'' trigger
                     (recordingMode durationSeconds)] s1)
          else
            (let s2 = emit [NotifyRecordingStatus ''recording_started'' trigger
                              (recordingMode durationSeconds)] s1
             in case durationSeconds of
                  None \<Rightarrow> (Inr succeeded, s2)
                | Some d \<Rightarrow>
                    if isContinuous durationSeconds then (Inr succeeded, s2)
                    else (Inr succeeded,
                          s2\<lparr>timers := timers s2 @ [\<lparr>delayMillis = d * 1000, triggerType = trigger\<rparr>]\<rparr>)))"

definition triggerRecording ::
  "string \<Rightarrow> int option \<Rightarrow> start_env \<Rightarrow> audio_state \<Rightarrow> (js_error + start_result) \<times> audio_state" where
  "triggerRecording trigger durationSeconds env s =
     (case triggerRecording_try trigger durationSeconds env s of
        (Inr r, s') \<Rightarrow> (Inr r, s')
      | (Inl err, s') \<Rightarrow> (Inr (failed (messageOr err ''Unknown error in triggerRecording'')), s'))"

text \<open>The callback of lines 484 to 496, run when an auto-stop timer fires:
  \<^verbatim>\<open>
  if (recording) {
    const status = await recording.getStatusAsync().catch(() => ({ isRecording: false }));
    if (status.isRecording) { await stopRecording(); }
  }
  \<close>\<close>

record autostop_env =
  callbackStatus :: "js_error + recording_status"
  callbackStop :: stop_env

definition autoStop :: "autostop_env \<Rightarrow> audio_state \<Rightarrow> (js_error + unit) \<times> audio_state" where
  "autoStop env s =
     (case recording s of
        None \<Rightarrow> (Inr (), s)
      | Some h \<Rightarrow>
          (let stillRecording = (case callbackStatus env of Inl _ \<Rightarrow> False | Inr status \<Rightarrow> isRecording status)
           in if stillRecording then
                (case stopRecording (callbackStop env) s of
                   (Inl e, s') \<Rightarrow> (Inl e, s')
                 | (Inr _, s') \<Rightarrow> (Inr (), s'))
              else (Inr (), s)))"

section \<open>CommandPollingService: one poll cycle\<close>

text \<open>\<open>trim\<close>, \<open>toLowerCase\<close> and \<open>startsWith\<close>. Lower-casing maps \<open>A\<close> to \<open>Z\<close> onto \<open>a\<close> to
  \<open>z\<close>; no other character lower-cases to a letter of the two prefixes tested below,
  so the test of line 147 does not depend on the rest of the mapping.\<close>

definition trim :: "string \<Rightarrow> string" where
  "trim s = rev (dropWhile isWhiteSpace (rev (dropWhile isWhiteSpace s)))"

definition lowerChar :: "char \<Rightarrow> char" where
  "lowerChar c =
     (case map_of (zip ''ABCDEFGHIJKLMNOPQRSTUVWXYZ'' ''abcdefghijklmnopqrstuvwxyz'') c of
        None \<Rightarrow> c
      | Some l \<Rightarrow> l)"

definition toLowerCase :: "string \<Rightarrow> string" where
  "toLowerCase s = map lowerChar s"

definition startsWith :: "string \<Rightarrow> string \<Rightarrow> bool" where
  "startsWith s p \<longleftrightarrow> take (length p) s = p"

definition isHtml :: "string \<Rightarrow> bool" where
  "isHtml responseText \<longleftrightarrow>
     startsWith (toLowerCase (trim responseText)) ''<!doctype'' \<or>
     startsWith (toLowerCase (trim responseText)) ''<html''"

text \<open>
  The command object of the endpoint \<open>GET /api/command/{deviceId}\<close>, as the dispatcher
  reads it: \<open>hasCommand\<close> is the truthiness of \<open>data.hasCommand\<close>, \<open>action\<close> is a string
  and \<open>durationSeconds\<close> an integer, each \<open>None\<close> when absent or \<open>null\<close>. A parsed value
  that is not an object has no property and reads as the object with all three absent.
  \<open>JSON.parse\<close> may also yield \<open>null\<close>, on which a property access throws.
\<close>

record command_payload =
  hasCommand :: bool
  action :: "string option"
  durationSeconds :: "int option"

datatype parsed = ParsedNull | ParsedValue command_payload

record http_response =
  httpStatus :: nat
  responseText :: "js_error + string"

datatype level = Warn | Err

record app_state =
  ident :: ident_state
  audio :: audio_state
  console :: "(level \<times> string) list"

text \<open>\<open>console\<close> keeps the calls of \<open>console.warn\<close> and \<open>console.error\<close> that the code of
  CommandPollingService and of AudioService makes during a poll cycle, in order, each
  by the fixed part of its message. \<open>console.log\<close> is not recorded, and neither is what
  the collaborators of the two modules write on their own (AsyncStorage,
  \<open>RegistrationService.collectDeviceInfo\<close>, the capture API, LocationService and
  ApiService).\<close>

definition logged :: "(level \<times> string) list \<Rightarrow> app_state \<Rightarrow> app_state" where
  "logged entries s = s\<lparr>console := console s @ entries\<rparr>"

definition threeErrors :: "string \<Rightarrow> (level \<times> string) list" where
  "threeErrors what = [(Err, what), (Err, ''Error message:''), (Err, ''Error stack:'')]"

text \<open>What \<open>getDeviceId\<close> writes: the \<open>console.warn\<close> of its handler (line 89), when the body
  of its \<open>try\<close> has thrown.\<close>

definition getDeviceIdConsole :: "ident_env \<Rightarrow> ident_state \<Rightarrow> (level \<times> string) list" where
  "getDeviceIdConsole env s =
     (case getDeviceId_try env s of
        (Inl err, _) \<Rightarrow> [(Warn, ''Failed to get device ID, using fallback:'')]
      | (Inr _, _) \<Rightarrow> [])"

text \<open>What \<open>startRecording\<close> writes: lines 62 and 116 log with \<open>console.error\<close> the message
  of the failure they return, and the handler logs three lines (131 to 133). The early
  return of line 32 and the success of line 129 write with \<open>console.log\<close> only.\<close>

definition startRecordingConsole :: "start_env \<Rightarrow> audio_state \<Rightarrow> (level \<times> string) list" where
  "startRecordingConsole env s =
     (case startRecording_try env s of
        (Inl err, _) \<Rightarrow> threeErrors ''Failed to start recording:''
      | (Inr r, _) \<Rightarrow>
          (if success r then []
           else (case error r of None \<Rightarrow> [] | Some errorMsg \<Rightarrow> [(Err, errorMsg)])))"

text \<open>What \<open>triggerRecording\<close> writes: the output of \<open>startRecording\<close>, then line 460 when
  the start failed, or the three lines of its handler (501 to 503).\<close>

definition triggerRecordingConsole ::
  "string \<Rightarrow> int option \<Rightarrow> start_env \<Rightarrow> audio_state \<Rightarrow> (level \<times> string) list" where
  "triggerRecordingConsole trigger duration env s =
     startRecordingConsole env s @
     (case startRecording env s of
        (Inl err, _) \<Rightarrow> threeErrors ''Trigger recording error:''
      | (Inr result, _) \<Rightarrow>
          if \<not> success result then [(Err, ''Failed to start recording for trigger'')] else [])"

text \<open>What \<open>stopRecording\<close> writes: the \<open>console.warn\<close> of line 178 when \<open>getURI()\<close> gave no
  URI, and the three lines of its handler (183 to 185) when a step of the \<open>try\<close> has
  thrown.\<close>

definition stopRecordingConsole :: "stop_env \<Rightarrow> audio_state \<Rightarrow> (level \<times> string) list" where
  "stopRecordingConsole env s =
     (case recording s of
        None \<Rightarrow> []
      | Some h \<Rightarrow>
          (case stopStatus env of
             Inl e \<Rightarrow> threeErrors ''Failed to stop recording:''
           | Inr status \<Rightarrow>
               if \<not> isRecording status then []
               else
                 (case stopAndUnloadReply env of
                    Inl e \<Rightarrow> threeErrors ''Failed to stop recording:''
                  | Inr _ \<Rightarrow>
                      (case finalStatus env of
                         Inl e \<Rightarrow> threeErrors ''Failed to stop recording:''
                       | Inr final \<Rightarrow>
                           (case truthy (recordedURI env) of
                              None \<Rightarrow> [(Warn, ''No URI returned from recording - cannot upload'')]
                            | Some u \<Rightarrow>
                                (case uploadReply env of
                                   Inl e \<Rightarrow> threeErrors ''Failed to stop recording:''
                                 | Inr _ \<Rightarrow> []))))))"

text \<open>The environment of one poll cycle: the answers to \<open>getDeviceId\<close>, the sampling
  \<open>Math.random() < 0.05\<close>, the reply of \<open>fetch\<close> for the device identifier polled,
  \<open>JSON.parse\<close> (\<open>None\<close> where it throws) and the answers to the recording calls.\<close>

record poll_env =
  identEnv :: ident_env
  shouldLogPoll :: bool
  fetchReply :: "string \<Rightarrow> js_error + http_response"
  jsonParse :: "string \<Rightarrow> parsed option"
  triggerEnv :: start_env
  stopEnv :: stop_env

text \<open>Lines 142 to 207: read and classify the body. \<open>None\<close> is a \<open>return\<close> (the cycle
  ends with no command), \<open>Some data\<close> goes on to the dispatcher. Every throw inside is
  caught inside.\<close>

definition readBody :: "poll_env \<Rightarrow> http_response \<Rightarrow> app_state \<Rightarrow> parsed option \<times> app_state" where
  "readBody env response s =
     (case responseText response of
        Inl textError \<Rightarrow>
          (None, logged ((Err, ''Error reading response:'') #
                   (if httpStatus response \<noteq> 200 \<and> httpStatus response \<noteq> 404
                    then [(Err, ''Command poll failed'')] else [])) s)
      | Inr text \<Rightarrow>
          if isHtml text then
            (if httpStatus response = 404 then (None, s)
             else (None, logged ((Err, ''Command poll error: Server returned HTML'') #
                           (if shouldLogPoll env then [(Err, ''Response preview'')] else [])) s))
          else if text \<noteq> [] then
            (case jsonParse env text of
               Some data \<Rightarrow> (Some data, s)
             | None \<Rightarrow>
                 if httpStatus response = 404 then (None, s)
                 else (None, logged ((Err, ''Command poll error: Failed to parse response'') #
                               (if shouldLogPoll env then [(Err, ''Response'')] else [])) s))
          else
            (if httpStatus response = 404 then (None, s)
             else if httpStatus response \<noteq> 200 then
               (None, logged [(Err, ''Command poll error: Empty response'')] s)
             else (None, s)))"

text \<open>Line 216: \<^verbatim>\<open>const duration = data.durationSeconds || 30;\<close>\<close>

definition dispatchDuration :: "int option \<Rightarrow> int" where
  "dispatchDuration d = (case d of None \<Rightarrow> 30 | Some n \<Rightarrow> if n = 0 then 30 else n)"

text \<open>The duration as the specification words it:
  \<open>duration = durationSeconds ?? defaultDuration(30s)\<close>; a trigger is continuous for
  \<open>null\<close> and \<open>0\<close>.\<close>

definition spec_dispatchDuration :: "int option \<Rightarrow> int" where
  "spec_dispatchDuration d = (case d of None \<Rightarrow> 30 | Some n \<Rightarrow> n)"

text \<open>Lines 211 to 264: the dispatcher. What the recording call writes comes before what
  the dispatcher writes about its result.\<close>

definition dispatchCommand :: "poll_env \<Rightarrow> parsed \<Rightarrow> app_state \<Rightarrow> (js_error + unit) \<times> app_state" where
  "dispatchCommand env data s =
     (case data of
        ParsedNull \<Rightarrow> (Inl (JsError ''Cannot read properties of null''), s)
      | ParsedValue d \<Rightarrow>
          if hasCommand d \<and> truthy (action d) \<noteq> None then
            (if action d = Some ''start recording'' \<or> action d = Some ''start'' then
               (let duration = dispatchDuration (durationSeconds d);
                    written = triggerRecordingConsole ''dashboard'' (Some duration)
                                (triggerEnv env) (audio s)
                in case triggerRecording ''dashboard'' (Some duration) (triggerEnv env) (audio s) of
                     (Inr result, a) \<Rightarrow>
                       if success result then (Inr (), logged written (s\<lparr>audio := a\<rparr>))
                       else (Inr (),
                             logged (written @
                                     [(Err, ''Failed to start recording via dashboard command'')])
                               (s\<lparr>audio := a\<rparr>))
                   | (Inl recordError, a) \<Rightarrow>
                       (Inr (),
                        logged (written @ threeErrors ''Exception while starting recording:'')
                          (s\<lparr>audio := a\<rparr>)))
             else if action d = Some ''stop recording'' \<or> action d = Some ''stop'' then
               (let written = stopRecordingConsole (stopEnv env) (audio s)
                in case stopRecording (stopEnv env) (audio s) of
                     (Inr result, a) \<Rightarrow> (Inr (), logged written (s\<lparr>audio := a\<rparr>))
                   | (Inl stopError, a) \<Rightarrow>
                       (Inr (),
                        logged (written @ threeErrors ''Failed to stop recording:'')
                          (s\<lparr>audio := a\<rparr>)))
             else (Inr (), logged [(Warn, ''Unknown command action'')] s))
          else (Inr (), s))"

text \<open>Lines 130 to 264, the body of the inner \<open>try\<close>: \<open>fetch\<close>, then the two parts
  above.\<close>

definition pollOnce_try :: "poll_env \<Rightarrow> string \<Rightarrow> app_state \<Rightarrow> (js_error + unit) \<times> app_state" where
  "pollOnce_try env deviceId s =
     (case fetchReply env deviceId of
        Inl e \<Rightarrow> (Inl e, s)
      | Inr response \<Rightarrow>
          (case readBody env response s of
             (None, s1) \<Rightarrow> (Inr (), s1)
           | (Some data, s1) \<Rightarrow> dispatchCommand env data s1))"

text \<open>Line 118: the device identifier for this cycle; the state afterwards carries what
  \<open>getDeviceId\<close> cached, stored and wrote.\<close>

definition resolveIdent :: "poll_env \<Rightarrow> app_state \<Rightarrow> string \<times> app_state" where
  "resolveIdent env s =
     (case getDeviceId (identEnv env) (ident s) of
        (deviceId, i) \<Rightarrow>
          (deviceId, logged (getDeviceIdConsole (identEnv env) (ident s)) (s\<lparr>ident := i\<rparr>)))"

text \<open>\<open>checkForCommands\<close>: the device identifier, the inner \<open>try\<close> with its handler
  (lines 265 to 270) and the outer handler (lines 271 to 275).\<close>

definition checkForCommands_try :: "poll_env \<Rightarrow> app_state \<Rightarrow> (js_error + unit) \<times> app_state" where
  "checkForCommands_try env s =
     (case resolveIdent env s of
        (deviceId, s0) \<Rightarrow>
          (case pollOnce_try env deviceId s0 of
             (Inr u, s1) \<Rightarrow> (Inr u, s1)
           | (Inl fetchError, s1) \<Rightarrow>
               (Inr (), logged (threeErrors ''Error checking for commands:'') s1)))"

definition checkForCommands :: "poll_env \<Rightarrow> app_state \<Rightarrow> (js_error + unit) \<times> app_state" where
  "checkForCommands env s =
     (case checkForCommands_try env s of
        (Inr u, s') \<Rightarrow> (Inr u, s')
      | (Inl err, s') \<Rightarrow> (Inr (), logged (threeErrors ''Error in checkForCommands:'') s'))"


section \<open>CommandPollingService: the polling cadence\<close>

text \<open>
  \<^verbatim>\<open>
  await checkForCommands();
  pollingInterval = setInterval(async () => {
    await checkForCommands();
  }, 2000);
  \<close>
  Time is in milliseconds. The immediate poll starts at the activation time and is
  awaited; the interval timer is registered when it completes and then fires every
  2000 ms, each tick starting a cycle. The timer does not look at the promise its
  callback returns. The list of durations gives how long each cycle takes: the head
  for the immediate poll, the rest for the ticks in order.
\<close>

record cycle =
  cycleStart :: nat
  cycleEnd :: nat

fun tickCycles :: "nat \<Rightarrow> nat list \<Rightarrow> cycle list" where
  "tickCycles registered [] = []"
| "tickCycles registered (d # ds) =
     \<lparr>cycleStart = registered + 2000, cycleEnd = registered + 2000 + d\<rparr>
       # tickCycles (registered + 2000) ds"

definition pollingCycles :: "nat \<Rightarrow> nat list \<Rightarrow> cycle list" where
  "pollingCycles activation durations =
     (case durations of
        [] \<Rightarrow> []
      | d0 # ds \<Rightarrow>
          \<lparr>cycleStart = activation, cycleEnd = activation + d0\<rparr> # tickCycles (activation + d0) ds)"

text \<open>The cycles in flight at time \<open>t\<close>: started and not yet completed.\<close>

definition inFlight :: "cycle list \<Rightarrow> nat \<Rightarrow> cycle list" where
  "inFlight cycles t = filter (\<lambda>c. cycleStart c \<le> t \<and> t < cycleEnd c) cycles"

section \<open>Conditions on the environment\<close>

text \<open>The capture collaborator lets a fresh start go through: permission is granted, no
  call rejects, and the status re-query confirms the session.\<close>

definition startsCleanly :: "start_env \<Rightarrow> bool" where
  "startsCleanly env \<longleftrightarrow>
     permissionReply env = Inr True \<and> setAudioModeReply env = Inr () \<and>
     prepareReply env = Inr () \<and> startReply env = Inr () \<and>
     reportsRecording (verifyStatus env)"

section \<open>Sample states and environments\<close>

text \<open>Concrete inputs at which the theorems below are instantiated: an idle recorder, a
  capture collaborator that answers every call and confirms the session, a stop that
  yields an artifact, an empty identity state, and device metadata with a given
  manufacturer.\<close>

definition idle :: audio_state where
  "idle = \<lparr>recording = None, allocated = 0, effects = [], timers = []\<rparr>"

definition active :: recording_status where
  "active = \<lparr>isRecording = True, durationMillis = 0\<rparr>"

definition inactive :: recording_status where
  "inactive = \<lparr>isRecording = False, durationMillis = 0\<rparr>"

definition cleanEnv :: start_env where
  "cleanEnv = \<lparr>existingStatus = Inr active, cleanupReply = Inr (), permissionReply = Inr True,
     setAudioModeReply = Inr (), prepareReply = Inr (), startReply = Inr (),
     verifyStatus = Inr active\<rparr>"

definition cleanStop :: stop_env where
  "cleanStop = \<lparr>stopStatus = Inr active, stopCleanupReply = Inr (), stopAndUnloadReply = Inr (),
     recordedURI = Some ''file:///rec.m4a'',
     finalStatus = Inr \<lparr>isRecording = False, durationMillis = 5000\<rparr>, uploadReply = Inr ()\<rparr>"

text \<open>The capture API refuses to prepare a second recorder while one is prepared
  (\<open>prepareToRecordAsync\<close> rejects), and answers every other call as \<open>cleanEnv\<close> does.\<close>

definition exclusiveEnv :: start_env where
  "exclusiveEnv =
     cleanEnv\<lparr>prepareReply :=
       Inl (JsError ''Only one Recording object can be prepared at a given time.'')\<rparr>"

definition staleState :: audio_state where
  "staleState = \<lparr>recording = Some 0, allocated = 1, effects = [], timers = []\<rparr>"

definition freshIdent :: ident_state where
  "freshIdent = \<lparr>cachedDeviceId = None, deviceIdLogged = False, storage = Map.empty\<rparr>"

definition metadataEnv :: "string \<Rightarrow> ident_env" where
  "metadataEnv manu =
     \<lparr>getItemFails = None,
      collectDeviceInfo = Inr \<lparr>manufacturer = Some manu, modelName = Some ''Model1'',
                                platform = ''ios''\<rparr>,
      setItemFails = None, platformOS = ''ios'', dateNow = 0\<rparr>"

definition acmeIdent :: ident_state where
  "acmeIdent = \<lparr>cachedDeviceId = Some ''Acme_Model1_iOS'', deviceIdLogged = True,
                 storage = [DEVICE_ID_KEY \<mapsto> ''Acme_Model1_iOS'']\<rparr>"

text \<open>A poll environment whose request is answered with the given status and body,
  \<open>JSON.parse\<close> yielding \<open>parsedAs\<close> on that body; a poll environment whose request
  fails; an application state with a cached identifier and an idle recorder; a start
  command with a given \<open>durationSeconds\<close>.\<close>

definition respond :: "nat \<Rightarrow> string \<Rightarrow> parsed option \<Rightarrow> poll_env" where
  "respond status text parsedAs =
     \<lparr>identEnv = metadataEnv ''Acme'', shouldLogPoll = False,
      fetchReply = (\<lambda>deviceId. Inr \<lparr>httpStatus = status, responseText = Inr text\<rparr>),
      jsonParse = (\<lambda>t. if t = text then parsedAs else None),
      triggerEnv = cleanEnv, stopEnv = cleanStop\<rparr>"


definition idleApp :: app_state where
  "idleApp = \<lparr>ident = acmeIdent, audio = idle, console = []\<rparr>"

definition startCommand :: "int option \<Rightarrow> command_payload" where
  "startCommand d = \<lparr>hasCommand = True, action = Some ''start'', durationSeconds = d\<rparr>"

text \<open>An execution of the recorder: a timed start from the dashboard, a stop that
  completes, a new continuous start; and the environment of the auto-stop callback of
  the first start when its timer fires and the capture collaborator reports the current
  handle as recording.\<close>

definition timedSession :: audio_state where
  "timedSession = snd (triggerRecording ''dashboard'' (Some 5) cleanEnv idle)"

definition stoppedSession :: audio_state where
  "stoppedSession = snd (stopRecording cleanStop timedSession)"

definition restartedSession :: audio_state where
  "restartedSession = snd (triggerRecording ''manual'' None cleanEnv stoppedSession)"

definition firingTimer :: autostop_env where
  "firingTimer = \<lparr>callbackStatus = Inr active, callbackStop = cleanStop\<rparr>"









section \<open>Properties of the device identifier format\<close>

lemma replaceRuns_Nil: "replaceRuns C [] s = filter (\<lambda>c. \<not> C c) s"
proof (induction "length s" arbitrary: s rule: less_induct)
  case less
  show ?case
  proof (cases s)
    case Nil
    then show ?thesis by simp
  next
    case (Cons c cs)
    show ?thesis
    proof (cases "C c")
      case True
      have "length (dropWhile C cs) < length s"
        using Cons by (simp add: length_dropWhile_le less_Suc_eq_le)
      then have "replaceRuns C [] (dropWhile C cs) = filter (\<lambda>c. \<not> C c) (dropWhile C cs)"
        using less by blast
      moreover have "filter (\<lambda>c. \<not> C c) (dropWhile C cs) = filter (\<lambda>c. \<not> C c) cs"
        by (induction cs) auto
      ultimately show ?thesis using Cons True by simp
    next
      case False
      have "length cs < length s" using Cons by simp
      then show ?thesis using Cons False less by simp
    qed
  qed
qed

lemma replaceRuns_avoids_class:
  assumes r: "\<forall>c \<in> set r. \<not> C c"
  shows "\<forall>c \<in> set (replaceRuns C r s). \<not> C c"
proof (induction "length s" arbitrary: s rule: less_induct)
  case less
  show ?case
  proof (cases s)
    case Nil
    then show ?thesis by simp
  next
    case (Cons a as)
    show ?thesis
    proof (cases "C a")
      case True
      have "length (dropWhile C as) < length s"
        using Cons by (simp add: length_dropWhile_le less_Suc_eq_le)
      then have "\<forall>c \<in> set (replaceRuns C r (dropWhile C as)). \<not> C c"
        using less by blast
      then show ?thesis using Cons True r by auto
    next
      case False
      have "length as < length s" using Cons by simp
      then have "\<forall>c \<in> set (replaceRuns C r as). \<not> C c"
        using less by blast
      then show ?thesis using Cons False by auto
    qed
  qed
qed

lemma replaceRuns_unchanged: "\<forall>c \<in> set s. \<not> C c \<Longrightarrow> replaceRuns C r s = s"
  by (induction s) auto

lemma underscore_not_space: "\<not> isWhiteSpace CHR ''_''"
  by (simp add: isWhiteSpace_def)

lemma iOS_not_space: "\<forall>c \<in> set ''_iOS''. \<not> isWhiteSpace c"
  by (simp add: isWhiteSpace_def)

lemma showNat_nonempty: "showNat n \<noteq> []"
  by (subst showNat.simps) simp

lemma generateDeviceId_nonempty: "generateDeviceId d n \<noteq> []"
  by (simp add: generateDeviceId_def generateDeviceId_try_def split: option.splits)

text \<open>
  Claim C9, as the specification states it: the derived identifier is
  \<open>{manufacturer}_{model}_{platformTag}\<close>, with runs of non-alphanumeric characters of the
  manufacturer and model tokens normalized to underscores and the tag reflecting the
  running platform. On an Android device of manufacturer \<open>Acme Corp\<close> and model
  \<open>Model-1\<close> the source yields \<open>AcmeCorp_Model-1_iOS\<close>, where the stated format is
  \<open>Acme_Corp_Model_1_android\<close>: the space of the manufacturer is removed, not replaced,
  the hyphen of the model is kept, and the tag is the constant \<open>iOS\<close>.
\<close>

theorem generateDeviceId_format_counterexample:
  "generateDeviceId (Some \<lparr>manufacturer = Some ''Acme Corp'', modelName = Some ''Model-1'',
       platform = ''android''\<rparr>) 0 = ''AcmeCorp_Model-1_iOS'' \<and>
   spec_deviceId ''Acme Corp'' ''Model-1'' ''android'' = ''Acme_Corp_Model_1_android'' \<and>
   generateDeviceId (Some \<lparr>manufacturer = Some ''Acme Corp'', modelName = Some ''Model-1'',
       platform = ''android''\<rparr>) 0 \<noteq> spec_deviceId ''Acme Corp'' ''Model-1'' ''android''"
  by (simp add: generateDeviceId_def generateDeviceId_try_def orDefault_def isWhiteSpace_def
      spec_deviceId_def spec_normalize_def isAlphaNum_def)

text \<open>
  Claim C9, amended: for every collected device-metadata record the derived identifier
  is \<open>M_D_iOS\<close>, where \<open>M\<close> is the manufacturer (\<open>Apple\<close> when absent or empty) with every
  whitespace character removed, \<open>D\<close> is the model name (\<open>Unknown\<close> when absent or empty)
  with every maximal run of whitespace replaced by one underscore, and the tag is the
  constant \<open>iOS\<close> whatever the platform. The identifier contains no whitespace, and when
  the two tokens contain none it is the two tokens and the tag joined by underscores.
\<close>

theorem generateDeviceId_format:
  "generateDeviceId (Some info) now =
     filter (\<lambda>c. \<not> isWhiteSpace c) (orDefault (manufacturer info) ''Apple'') @ ''_'' @
     replaceRuns isWhiteSpace ''_'' (orDefault (modelName info) ''Unknown'') @ ''_iOS'' \<and>
   (\<forall>c \<in> set (generateDeviceId (Some info) now). \<not> isWhiteSpace c) \<and>
   generateDeviceId (Some (info\<lparr>platform := p\<rparr>)) now = generateDeviceId (Some info) now \<and>
   ((\<forall>c \<in> set (orDefault (manufacturer info) ''Apple'' @ orDefault (modelName info) ''Unknown'').
        \<not> isWhiteSpace c) \<longrightarrow>
    generateDeviceId (Some info) now =
      orDefault (manufacturer info) ''Apple'' @ ''_'' @ orDefault (modelName info) ''Unknown'' @ ''_iOS'')"
proof -
  let ?m = "orDefault (manufacturer info) ''Apple''"
  let ?d = "orDefault (modelName info) ''Unknown''"
  have eq: "generateDeviceId (Some info) now =
      filter (\<lambda>c. \<not> isWhiteSpace c) ?m @ ''_'' @ replaceRuns isWhiteSpace ''_'' ?d @ ''_iOS''"
    by (simp add: generateDeviceId_def generateDeviceId_try_def replaceRuns_Nil)
  have model_clean: "\<forall>c \<in> set (replaceRuns isWhiteSpace ''_'' ?d). \<not> isWhiteSpace c"
    by (rule replaceRuns_avoids_class) (simp add: underscore_not_space)
  have clean: "\<forall>c \<in> set (generateDeviceId (Some info) now). \<not> isWhiteSpace c"
    unfolding eq using model_clean iOS_not_space underscore_not_space by auto
  have plat: "generateDeviceId (Some (info\<lparr>platform := p\<rparr>)) now = generateDeviceId (Some info) now"
    by (simp add: generateDeviceId_def generateDeviceId_try_def)
  have plain: "(\<forall>c \<in> set (?m @ ?d). \<not> isWhiteSpace c) \<longrightarrow>
      generateDeviceId (Some info) now = ?m @ ''_'' @ ?d @ ''_iOS''"
  proof
    assume a: "\<forall>c \<in> set (?m @ ?d). \<not> isWhiteSpace c"
    then have "filter (\<lambda>c. \<not> isWhiteSpace c) ?m = ?m"
      by (simp add: filter_id_conv)
    moreover have "replaceRuns isWhiteSpace ''_'' ?d = ?d"
      using a by (simp add: replaceRuns_unchanged)
    ultimately show "generateDeviceId (Some info) now = ?m @ ''_'' @ ?d @ ''_iOS''"
      using eq by simp
  qed
  show ?thesis using eq clean plat plain by blast
qed

theorem generateDeviceId_format_witness:
  "generateDeviceId (Some \<lparr>manufacturer = None, modelName = Some ''iPhone13'', platform = ''ios''\<rparr>) 0
     = ''Apple_iPhone13_iOS''"
  using generateDeviceId_format
    [of "\<lparr>manufacturer = None, modelName = Some ''iPhone13'', platform = ''ios''\<rparr>" 0 "''android''"]
  by (simp add: orDefault_def isWhiteSpace_def)

section \<open>Properties of the device identity\<close>

lemma truthy_Some: "truthy x = Some v \<longleftrightarrow> x = Some v \<and> v \<noteq> []"
  by (auto simp: truthy_def split: option.splits)

lemma getDeviceId_caches:
  assumes "getDeviceId env s = (deviceId, s1)"
  shows "cachedDeviceId s1 = Some deviceId \<and> deviceId \<noteq> []"
  using assms
  by (auto simp: getDeviceId_def getDeviceId_try_def truthy_Some Let_def
      generateDeviceId_nonempty
      split: option.splits sum.splits)

lemma getDeviceId_hit:
  "cachedDeviceId s = Some d \<Longrightarrow> d \<noteq> [] \<Longrightarrow> getDeviceId env s = (d, s)"
  by (simp add: getDeviceId_def getDeviceId_try_def truthy_def)

lemma getDeviceIds_hit:
  "cachedDeviceId s = Some d \<Longrightarrow> d \<noteq> [] \<Longrightarrow>
   getDeviceIds envs s = (replicate (length envs) d, s)"
  by (induction envs) (simp_all add: getDeviceId_hit)

lemma getDeviceId_after_restart:
  "storage s DEVICE_ID_KEY = Some d \<Longrightarrow> d \<noteq> [] \<Longrightarrow> getItemFails env = None \<Longrightarrow>
   fst (getDeviceId env (restart s)) = d"
  by (simp add: getDeviceId_def getDeviceId_try_def truthy_def restart_def)

text \<open>A call that found the cache empty and did not fall back leaves the identifier it
  returns in the durable store: it read it there or has just written it.\<close>

lemma getDeviceId_persists:
  assumes "getDeviceId env s = (deviceId, s1)"
    and "cachedDeviceId s = None" and "\<exists>v. fst (getDeviceId_try env s) = Inr v"
  shows "storage s1 DEVICE_ID_KEY = Some deviceId"
  using assms
  by (auto simp: getDeviceId_def getDeviceId_try_def truthy_Some Let_def
      split: option.splits sum.splits)

lemma getDeviceId_first_call:
  "getDeviceId (metadataEnv ''Acme'') freshIdent = (''Acme_Model1_iOS'', acmeIdent)"
  by (simp add: getDeviceId_def getDeviceId_try_def truthy_def metadataEnv_def freshIdent_def
      acmeIdent_def generateDeviceId_def generateDeviceId_try_def orDefault_def
      isWhiteSpace_def Let_def)

text \<open>
  Claim C7: once \<open>getDeviceId\<close> has produced an identifier, by whichever path, every
  later call in the same process returns the same string and leaves the state as it
  is, whatever the device metadata and the store would answer by then (the calls are
  consecutive: no \<open>storeDeviceId\<close> in between). After a restart, when the persisted value
  is that identifier and the store can be read, the first call returns it again, and so
  does every call after it.
\<close>

theorem getDeviceId_stable:
  assumes "getDeviceId env s = (deviceId, s1)"
  shows "getDeviceIds envs s1 = (replicate (length envs) deviceId, s1) \<and>
         (storage s1 DEVICE_ID_KEY = Some deviceId \<and> getItemFails env' = None \<longrightarrow>
            fst (getDeviceId env' (restart s1)) = deviceId \<and>
            fst (getDeviceIds envs (snd (getDeviceId env' (restart s1)))) =
              replicate (length envs) deviceId)"
proof -
  have c: "cachedDeviceId s1 = Some deviceId" and ne: "deviceId \<noteq> []"
    using getDeviceId_caches [OF assms] by simp_all
  have same: "getDeviceIds envs s1 = (replicate (length envs) deviceId, s1)"
    using c ne by (rule getDeviceIds_hit)
  have again: "fst (getDeviceId env' (restart s1)) = deviceId \<and>
      fst (getDeviceIds envs (snd (getDeviceId env' (restart s1)))) =
        replicate (length envs) deviceId"
    if p: "storage s1 DEVICE_ID_KEY = Some deviceId" and g: "getItemFails env' = None"
  proof -
    have r: "fst (getDeviceId env' (restart s1)) = deviceId"
      using p ne g by (rule getDeviceId_after_restart)
    obtain s2 where s2: "getDeviceId env' (restart s1) = (deviceId, s2)"
      using r by (cases "getDeviceId env' (restart s1)") simp
    have "cachedDeviceId s2 = Some deviceId"
      using getDeviceId_caches [OF s2] by simp
    then have "getDeviceIds envs s2 = (replicate (length envs) deviceId, s2)"
      using ne by (rule getDeviceIds_hit)
    then show ?thesis using r s2 by simp
  qed
  show ?thesis using same again by blast
qed

theorem getDeviceId_stable_witness:
  "getDeviceIds [metadataEnv ''Other'', metadataEnv ''Third''] acmeIdent
     = ([''Acme_Model1_iOS'', ''Acme_Model1_iOS''], acmeIdent) \<and>
   fst (getDeviceId (metadataEnv ''Other'') (restart acmeIdent)) = ''Acme_Model1_iOS''"
  using getDeviceId_stable [OF getDeviceId_first_call,
      of "[metadataEnv ''Other'', metadataEnv ''Third'']" "metadataEnv ''Other''"]
  by (simp add: metadataEnv_def acmeIdent_def)

section \<open>Properties of startRecording\<close>

lemmas start_defs = startRecording_def startRecording_try_def checkExisting_def startFresh_def
  cleanupStale_def emit_def failed_def succeeded_def messageOr_def

lemma startRecording_returns: "\<exists>r. fst (startRecording env s) = Inr r"
  by (auto simp: startRecording_def split: prod.splits sum.splits)

lemma startFresh_failure:
  "recording s = None \<Longrightarrow> startFresh env s = (Inr r, s') \<Longrightarrow> \<not> success r \<Longrightarrow> recording s' = None"
  by (auto simp: startFresh_def emit_def failed_def succeeded_def Let_def
      split: sum.splits if_splits)

lemma checkExisting_clears: "checkExisting env s = Inr s' \<Longrightarrow> recording s' = None"
  by (auto simp: checkExisting_def split: option.splits sum.splits if_splits)

lemma checkExisting_success: "checkExisting env s = Inl r \<Longrightarrow> success r"
  by (auto simp: checkExisting_def succeeded_def split: option.splits sum.splits if_splits)

lemma startRecording_clean:
  assumes "recording s = None" and "startsCleanly env"
  shows "startRecording env s =
     (Inr succeeded,
      s\<lparr>recording := Some (allocated s), allocated := Suc (allocated s),
        effects := effects s @ [RequestPermissions, SetAudioMode, NewRecording (allocated s),
                     PrepareToRecord (allocated s), StartAsync (allocated s)]\<rparr>)"
  using assms
  by (auto simp: start_defs Let_def startsCleanly_def reportsRecording_def split: sum.splits)

lemma startRecording_already:
  assumes "recording s = Some h" and "reportsRecording (existingStatus env)"
  shows "startRecording env s =
     (Inr (succeeded\<lparr>alreadyRecording := Some True,
                     resultMessage := Some ''Recording already in progress''\<rparr>), s)"
  using assms
  by (auto simp: start_defs reportsRecording_def split: sum.splits)

lemma startRecordingsAwaited_already:
  assumes "recording s = Some h" and "\<forall>e \<in> set envs. reportsRecording (existingStatus e)"
  shows "startRecordingsAwaited envs s =
     (replicate (length envs) (Inr (succeeded\<lparr>alreadyRecording := Some True,
                     resultMessage := Some ''Recording already in progress''\<rparr>)), s)"
  using assms by (induction envs) (simp_all add: startRecording_already)

text \<open>
  Start requests each awaited before the next is issued, with no stop in between, on an
  idle recorder whose capture collaborator lets the first start go through and reports
  the session as recording at each later request. Every call returns a success result:
  the first carries no \<open>alreadyRecording\<close>, every later one is
  \<open>{success: true, alreadyRecording: true}\<close> (with the message of line 35). Exactly one
  \<open>Audio.Recording\<close> is constructed: \<open>allocated\<close> grows by one, the trace gains the
  five calls of the first start and nothing else, and the handle held at the end is the
  one the first call allocated.
\<close>

lemma startRecordingsAwaited_idempotent:
  assumes "recording s = None" and "startsCleanly env"
    and "\<forall>e \<in> set envs. reportsRecording (existingStatus e)"
  shows "startRecordingsAwaited (env # envs) s =
     (Inr succeeded #
      replicate (length envs) (Inr (succeeded\<lparr>alreadyRecording := Some True,
                     resultMessage := Some ''Recording already in progress''\<rparr>)),
      s\<lparr>recording := Some (allocated s), allocated := Suc (allocated s),
        effects := effects s @ [RequestPermissions, SetAudioMode, NewRecording (allocated s),
                     PrepareToRecord (allocated s), StartAsync (allocated s)]\<rparr>)"
proof -
  let ?s1 = "s\<lparr>recording := Some (allocated s), allocated := Suc (allocated s),
        effects := effects s @ [RequestPermissions, SetAudioMode, NewRecording (allocated s),
                     PrepareToRecord (allocated s), StartAsync (allocated s)]\<rparr>"
  have first: "startRecording env s = (Inr succeeded, ?s1)"
    using assms(1,2) by (rule startRecording_clean)
  have "recording ?s1 = Some (allocated s)" by simp
  then have rest: "startRecordingsAwaited envs ?s1 =
     (replicate (length envs) (Inr (succeeded\<lparr>alreadyRecording := Some True,
                     resultMessage := Some ''Recording already in progress''\<rparr>)), ?s1)"
    using assms(3) by (rule startRecordingsAwaited_already)
  show ?thesis using first rest by simp
qed

lemma startRecordingsAwaited_example:
  "startRecordingsAwaited [cleanEnv, cleanEnv, cleanEnv] idle =
     ([Inr succeeded,
       Inr (succeeded\<lparr>alreadyRecording := Some True,
                     resultMessage := Some ''Recording already in progress''\<rparr>),
       Inr (succeeded\<lparr>alreadyRecording := Some True,
                     resultMessage := Some ''Recording already in progress''\<rparr>)],
      \<lparr>recording = Some 0, allocated = 1,
        effects = [RequestPermissions, SetAudioMode, NewRecording 0, PrepareToRecord 0, StartAsync 0],
        timers = []\<rparr>)"
  using startRecordingsAwaited_idempotent [of idle cleanEnv "[cleanEnv, cleanEnv]"]
  by (simp add: idle_def cleanEnv_def active_def startsCleanly_def reportsRecording_def)

text \<open>A call that nothing interrupts takes at most eight steps, and these steps are
  \<open>startRecording\<close> as defined above: the awaited calls are runs of the same steps.\<close>

lemma runCall_Returned: "runCall n env (Returned r) s = (Returned r, s)"
  by (induction n) (simp_all add: startStep_def)

lemma startCaught_eq:
  "startCaught e s = (Returned (Inr (failed (messageOr e ''Unknown error starting recording''))), s\<lparr>recording := None\<rparr>)"
  by (simp add: startCaught_def)

lemma runCall_fresh:
  "runCall (Suc (Suc (Suc (Suc (Suc n))))) env AwaitPermission (emit [RequestPermissions] s) =
     (case startFresh env s of
        (Inr r, s') \<Rightarrow> (Returned (Inr r), s')
      | (Inl err, s') \<Rightarrow> startCaught err s')"
  by (cases "permissionReply env"; cases "setAudioModeReply env"; cases "prepareReply env";
      cases "startReply env"; cases "verifyStatus env")
     (simp_all add: startStep_def startFresh_def startCaught_def emit_def Let_def runCall_Returned)

lemma startRecording_as_fresh:
  "checkExisting env s = Inr s' \<Longrightarrow>
   startRecording env s =
     (case startFresh env s' of
        (Inr r, s'') \<Rightarrow> (Inr r, s'')
      | (Inl err, s'') \<Rightarrow>
          (Inr (failed (messageOr err ''Unknown error starting recording'')),
           s''\<lparr>recording := None\<rparr>))"
  by (simp add: startRecording_def startRecording_try_def)

lemma runCall_fresh_eq:
  assumes "checkExisting env s = Inr s'"
  shows "runCall (Suc (Suc (Suc (Suc (Suc n))))) env AwaitPermission (emit [RequestPermissions] s') =
     (Returned (fst (startRecording env s)), snd (startRecording env s))"
  unfolding runCall_fresh startRecording_as_fresh [OF assms]
  by (cases "startFresh env s'") (auto simp: startCaught_def split: sum.splits)

lemma eight_steps: "(8::nat) = Suc (Suc (Suc (Suc (Suc (Suc (Suc (Suc 0)))))))"
  by simp

lemma runCall_startRecording:
  "runCall 8 env Entry s = (Returned (fst (startRecording env s)), snd (startRecording env s))"
proof (cases "recording s")
  case None
  then have chk: "checkExisting env s = Inr s" by (simp add: checkExisting_def)
  have "runCall (Suc (Suc (Suc (Suc (Suc (Suc (Suc (Suc 0)))))))) env Entry s =
      runCall (Suc (Suc (Suc (Suc (Suc (Suc (Suc 0))))))) env AwaitPermission
        (emit [RequestPermissions] s)"
    by (subst runCall.simps(2)) (simp add: startStep_def None del: runCall.simps)
  then show ?thesis
    unfolding eight_steps using runCall_fresh_eq [OF chk, of "Suc (Suc 0)"] by (simp only:)
next
  case (Some h)
  show ?thesis
  proof (cases "reportsRecording (existingStatus env)")
    case True
    then have "startRecording env s =
        (Inr (succeeded\<lparr>alreadyRecording := Some True,
                         resultMessage := Some ''Recording already in progress''\<rparr>), s)"
      using Some by (rule startRecording_already [rotated])
    then show ?thesis using Some True
      by (simp add: numeral_eq_Suc startStep_def runCall_Returned)
  next
    case False
    let ?c = "(cleanupStale (cleanupReply env) h s)\<lparr>recording := None\<rparr>"
    have chk: "checkExisting env s = Inr ?c"
      using Some False
      by (auto simp: checkExisting_def reportsRecording_def split: sum.splits)
    have one: "runCall (Suc (Suc (Suc (Suc (Suc (Suc (Suc (Suc 0)))))))) env Entry s =
        runCall (Suc (Suc (Suc (Suc (Suc (Suc (Suc 0))))))) env AwaitExistingStatus s"
      by (subst runCall.simps(2)) (simp add: startStep_def Some del: runCall.simps)
    have two: "runCall (Suc (Suc (Suc (Suc (Suc (Suc (Suc 0))))))) env AwaitExistingStatus s =
        runCall (Suc (Suc (Suc (Suc (Suc (Suc 0)))))) env AwaitCleanup (emit [StopAndUnload h] s)"
      by (subst runCall.simps(2)) (simp add: startStep_def Some False del: runCall.simps)
    have three: "runCall (Suc (Suc (Suc (Suc (Suc (Suc 0)))))) env AwaitCleanup
          (emit [StopAndUnload h] s) =
        runCall (Suc (Suc (Suc (Suc (Suc 0))))) env AwaitPermission (emit [RequestPermissions] ?c)"
      by (subst runCall.simps(2), cases "cleanupReply env")
         (simp_all add: startStep_def clearAndRequest_def cleanupStale_def emit_def
            del: runCall.simps)
    show ?thesis
      unfolding eight_steps using one two three runCall_fresh_eq [OF chk, of 0] by (simp only:)
  qed
qed

text \<open>
  Claim C1, evaluated on the source: two start requests on an idle recorder, the second
  issued while the first is suspended at the permission request (line 57), with a
  capture collaborator that grants and confirms everything. Both calls test
  \<open>recording\<close> at line 27 while it is still \<open>null\<close>, so neither takes the branch of line
  30: each constructs an \<open>Audio.Recording\<close>, and both return \<open>{success: true}\<close> with no
  \<open>alreadyRecording\<close>. Two handles are allocated; the module variable ends holding the
  second, and the first has been started and is never released. When the capture
  collaborator instead refuses to prepare the second recorder, the second call returns
  \<open>{success: false}\<close> and its handler clears the module variable (line 134) while the
  session of the first call is recording.
\<close>

theorem overlapping_starts_allocate_twice:
  "interleave [0, 1, 0, 0, 0, 0, 0, 1, 1, 1, 1, 1] [(cleanEnv, Entry), (cleanEnv, Entry)] idle =
     ([(cleanEnv, Returned (Inr succeeded)), (cleanEnv, Returned (Inr succeeded))],
      \<lparr>recording = Some 1, allocated = 2,
        effects = [RequestPermissions, RequestPermissions,
                   SetAudioMode, NewRecording 0, PrepareToRecord 0, StartAsync 0,
                   SetAudioMode, NewRecording 1, PrepareToRecord 1, StartAsync 1],
        timers = []\<rparr>) \<and>
   interleave [0, 1, 0, 0, 0, 0, 0, 1, 1, 1] [(cleanEnv, Entry), (exclusiveEnv, Entry)] idle =
     ([(cleanEnv, Returned (Inr succeeded)),
       (exclusiveEnv,
        Returned (Inr (failed ''Only one Recording object can be prepared at a given time.'')))],
      \<lparr>recording = None, allocated = 2,
        effects = [RequestPermissions, RequestPermissions,
                   SetAudioMode, NewRecording 0, PrepareToRecord 0, StartAsync 0,
                   SetAudioMode, NewRecording 1, PrepareToRecord 1],
        timers = []\<rparr>)"
  by (simp add: startStep_def startCaught_def messageOr_def cleanEnv_def exclusiveEnv_def idle_def
      emit_def active_def Let_def)


text \<open>
  Claim C3, evaluated on the source: when every step of a fresh start goes through and
  the status re-query of line 113 resolves with \<open>isRecording\<close> false, \<open>startRecording\<close>
  returns the structured failure with the verification message, does not throw, and
  leaves \<open>recording\<close> cleared. The trace gains the construction, preparation and start
  of the new handle and no \<open>StopAndUnload\<close> for it: the handle is dropped, not released.
\<close>

theorem startRecording_verification_failure:
  assumes "recording s = None" and "permissionReply env = Inr True"
    and "setAudioModeReply env = Inr ()" and "prepareReply env = Inr ()"
    and "startReply env = Inr ()" and "verifyStatus env = Inr status" and "\<not> isRecording status"
  shows "startRecording env s =
     (Inr (failed ''Recording start command failed - status shows not recording''),
      s\<lparr>recording := None, allocated := Suc (allocated s),
        effects := effects s @ [RequestPermissions, SetAudioMode, NewRecording (allocated s),
                     PrepareToRecord (allocated s), StartAsync (allocated s)]\<rparr>)"
  using assms by (simp add: start_defs Let_def)

theorem startRecording_verification_failure_witness:
  "startRecording (cleanEnv\<lparr>verifyStatus := Inr inactive\<rparr>) idle =
     (Inr (failed ''Recording start command failed - status shows not recording''),
      \<lparr>recording = None, allocated = 1,
        effects = [RequestPermissions, SetAudioMode, NewRecording 0, PrepareToRecord 0, StartAsync 0],
        timers = []\<rparr>)"
  using startRecording_verification_failure
    [of idle "cleanEnv\<lparr>verifyStatus := Inr inactive\<rparr>" inactive]
  by (simp add: idle_def cleanEnv_def inactive_def)

text \<open>
  Claim C4: when a handle exists and its status query does not report recording (it
  resolves with \<open>isRecording\<close> false, or it rejects), \<open>startRecording\<close> behaves as a
  start from the state in which the stale handle has been released and cleared. The
  release is attempted first and a rejection of it is only logged. The result the
  caller sees is the result of a start from an idle recorder: the stale handle raises
  no error. When the collaborator lets a start go through, the call succeeds with a
  freshly allocated handle.
\<close>

theorem startRecording_stale_handle:
  assumes "recording s = Some h" and "\<not> reportsRecording (existingStatus env)"
  shows "startRecording env s =
           startRecording env ((cleanupStale (cleanupReply env) h s)\<lparr>recording := None\<rparr>) \<and>
         effects (cleanupStale (cleanupReply env) h s) =
           effects s @ StopAndUnload h #
             (case cleanupReply env of Inl e \<Rightarrow> [CleanupErrorLogged (message e)] | Inr _ \<Rightarrow> []) \<and>
         fst (startRecording env s) = fst (startRecording env (s\<lparr>recording := None\<rparr>)) \<and>
         (startsCleanly env \<longrightarrow>
            fst (startRecording env s) = Inr succeeded \<and>
            recording (snd (startRecording env s)) = Some (allocated s) \<and>
            allocated (snd (startRecording env s)) = Suc (allocated s))"
proof -
  let ?c = "(cleanupStale (cleanupReply env) h s)\<lparr>recording := None\<rparr>"
  have chk: "checkExisting env s = Inr ?c"
    using assms by (auto simp: checkExisting_def reportsRecording_def split: sum.splits)
  have chk': "checkExisting env ?c = Inr ?c"
    by (simp add: checkExisting_def)
  have a: "startRecording env s = startRecording env ?c"
    by (simp add: startRecording_def startRecording_try_def chk chk')
  have b: "effects (cleanupStale (cleanupReply env) h s) =
           effects s @ StopAndUnload h #
             (case cleanupReply env of Inl e \<Rightarrow> [CleanupErrorLogged (message e)] | Inr _ \<Rightarrow> [])"
    by (simp add: cleanupStale_def emit_def split: sum.splits)
  have c: "fst (startRecording env s) = fst (startRecording env (s\<lparr>recording := None\<rparr>))"
    unfolding a
    by (simp add: start_defs Let_def split: sum.splits)
  have d: "fst (startRecording env s) = Inr succeeded \<and>
            recording (snd (startRecording env s)) = Some (allocated s) \<and>
            allocated (snd (startRecording env s)) = Suc (allocated s)" if "startsCleanly env"
  proof -
    have "recording ?c = None" by simp
    then show ?thesis
      unfolding a using startRecording_clean [OF _ that, of ?c]
      by (simp add: cleanupStale_def emit_def split: sum.splits)
  qed
  show ?thesis using a b c d by blast
qed

theorem startRecording_stale_handle_witness:
  "startRecording (cleanEnv\<lparr>existingStatus := Inr inactive,
                             cleanupReply := Inl (JsError ''already unloaded'')\<rparr>)
     staleState =
     (Inr succeeded,
      \<lparr>recording = Some 1, allocated = 2,
        effects = [StopAndUnload 0, CleanupErrorLogged ''already unloaded'', RequestPermissions,
                   SetAudioMode, NewRecording 1, PrepareToRecord 1, StartAsync 1],
        timers = []\<rparr>)"
proof -
  let ?env = "cleanEnv\<lparr>existingStatus := Inr inactive,
                        cleanupReply := Inl (JsError ''already unloaded'')\<rparr>"
  let ?s = "staleState"
  have h: "recording ?s = Some 0" by (simp add: staleState_def)
  have st: "\<not> reportsRecording (existingStatus ?env)"
    by (simp add: reportsRecording_def inactive_def)
  have clean: "startsCleanly ?env"
    by (simp add: startsCleanly_def cleanEnv_def reportsRecording_def active_def)
  have fresh: "startRecording ?env ((cleanupStale (cleanupReply ?env) 0 ?s)\<lparr>recording := None\<rparr>) =
     (Inr succeeded,
      \<lparr>recording = Some 1, allocated = 2,
        effects = [StopAndUnload 0, CleanupErrorLogged ''already unloaded'', RequestPermissions,
                   SetAudioMode, NewRecording 1, PrepareToRecord 1, StartAsync 1],
        timers = []\<rparr>)"
    by (simp add: startRecording_clean [OF _ clean] cleanupStale_def emit_def staleState_def)
  show ?thesis
    using startRecording_stale_handle [OF h st] fresh by simp
qed

text \<open>
  Claim C10: whenever \<open>startRecording\<close> returns a result with \<open>success\<close> false, because
  permission was denied, because the status verification failed, or because a step
  threw, the module variable \<open>recording\<close> is \<open>null\<close> on return.
\<close>

theorem startRecording_failure_clears_handle:
  assumes "startRecording env s = (Inr r, s')" and "\<not> success r"
  shows "recording s' = None"
proof (cases "startRecording_try env s")
  case (Pair out s1)
  show ?thesis
  proof (cases out)
    case (Inl e)
    then show ?thesis using assms Pair by (auto simp: startRecording_def)
  next
    case (Inr r1)
    then have eq: "r1 = r" "s1 = s'" using assms Pair by (simp_all add: startRecording_def)
    show ?thesis
    proof (cases "checkExisting env s")
      case (Inl r0)
      then have "r = r0" using Pair Inr eq by (simp add: startRecording_try_def)
      then show ?thesis using checkExisting_success [OF Inl] assms by simp
    next
      case (Inr s0)
      then have "startFresh env s0 = (Inr r, s')"
        using Pair \<open>out = Inr r1\<close> eq by (simp add: startRecording_try_def)
      then show ?thesis using checkExisting_clears [OF Inr] assms(2) startFresh_failure by blast
    qed
  qed
qed

lemma start_permission_denied:
  "startRecording (cleanEnv\<lparr>existingStatus := Inr inactive, permissionReply := Inr False\<rparr>)
     staleState =
   (Inr (failed ''Audio recording permission not granted''),
    \<lparr>recording = None, allocated = 1, effects = [StopAndUnload 0, RequestPermissions],
      timers = []\<rparr>)"
  by (simp add: start_defs cleanEnv_def staleState_def inactive_def Let_def)

lemma start_prepare_throws:
  "startRecording (cleanEnv\<lparr>prepareReply := Inl (JsError ''prepare failed'')\<rparr>) idle =
   (Inr (failed ''prepare failed''),
    \<lparr>recording = None, allocated = 1,
      effects = [RequestPermissions, SetAudioMode, NewRecording 0, PrepareToRecord 0],
      timers = []\<rparr>)"
  by (simp add: start_defs cleanEnv_def idle_def Let_def)

lemma start_unverified:
  "startRecording (cleanEnv\<lparr>verifyStatus := Inr inactive\<rparr>) idle =
     (Inr (failed ''Recording start command failed - status shows not recording''),
      \<lparr>recording = None, allocated = 1,
        effects = [RequestPermissions, SetAudioMode, NewRecording 0, PrepareToRecord 0, StartAsync 0],
        timers = []\<rparr>)"
  by (simp add: start_defs cleanEnv_def idle_def inactive_def Let_def)

theorem startRecording_failure_clears_handle_witness:
  "recording (snd (startRecording
       (cleanEnv\<lparr>existingStatus := Inr inactive, permissionReply := Inr False\<rparr>) staleState)) = None \<and>
   recording (snd (startRecording
       (cleanEnv\<lparr>prepareReply := Inl (JsError ''prepare failed'')\<rparr>) idle)) = None \<and>
   recording (snd (startRecording (cleanEnv\<lparr>verifyStatus := Inr inactive\<rparr>) idle)) = None"
proof -
  have f: "\<not> success (failed m)" for m by (simp add: failed_def)
  show ?thesis
    using startRecording_failure_clears_handle [OF start_permission_denied f]
      startRecording_failure_clears_handle [OF start_prepare_throws f]
      startRecording_failure_clears_handle [OF start_unverified f]
    by (simp add: start_permission_denied start_prepare_throws start_unverified)
qed

section \<open>Properties of stopRecording, triggerRecording and the deferred stop\<close>

lemmas stop_defs = stopRecording_def stopRecording_try_def cleanupStale_def emit_def

lemma cleanupStale_timers: "timers (cleanupStale reply h s) = timers s"
  by (simp add: cleanupStale_def emit_def split: sum.splits)

lemma checkExisting_timers: "checkExisting env s = Inr s' \<Longrightarrow> timers s' = timers s"
  by (auto simp: checkExisting_def cleanupStale_timers split: option.splits sum.splits if_splits)

lemma startFresh_timers: "timers (snd (startFresh env s)) = timers s"
  by (cases "permissionReply env"; cases "setAudioModeReply env"; cases "prepareReply env";
      cases "startReply env"; cases "verifyStatus env")
     (simp_all add: startFresh_def emit_def Let_def)

lemma startRecording_try_timers: "timers (snd (startRecording_try env s)) = timers s"
  by (cases "checkExisting env s")
     (simp_all add: startRecording_try_def startFresh_timers checkExisting_timers)

lemma startRecording_timers: "timers (snd (startRecording env s)) = timers s"
  using startRecording_try_timers [of env s]
  by (cases "startRecording_try env s") (auto simp: startRecording_def split: sum.splits)


lemma stopRecording_clears: "recording (snd (stopRecording env s)) = None"
  by (auto simp: stop_defs Let_def truthy_def split: option.splits sum.splits prod.splits)



lemma autoStop_idle: "recording s = None \<Longrightarrow> autoStop env s = (Inr (), s)"
  by (simp add: autoStop_def)

lemma autoStop_not_recording:
  "\<not> reportsRecording (callbackStatus env) \<Longrightarrow> autoStop env s = (Inr (), s)"
  by (auto simp: autoStop_def reportsRecording_def split: option.splits sum.splits)

lemma stopRecording_releases_once:
  assumes "recording s = Some h"
  shows "count_list (effects (snd (stopRecording env s))) (StopAndUnload h)
          \<le> Suc (count_list (effects s) (StopAndUnload h))"
  using assms
  by (auto simp: stop_defs Let_def truthy_def split: option.splits sum.splits prod.splits)

lemma startsCleanly_cleanEnv: "startsCleanly cleanEnv"
  by (simp add: startsCleanly_def cleanEnv_def reportsRecording_def active_def)

lemma triggerRecording_timed:
  assumes "recording s = None" and "startsCleanly env" and "d \<noteq> 0"
  shows "triggerRecording trigger (Some d) env s =
     (Inr succeeded,
      s\<lparr>recording := Some (allocated s), allocated := Suc (allocated s),
        effects := effects s @ [RequestPermissions, SetAudioMode, NewRecording (allocated s),
                     PrepareToRecord (allocated s), StartAsync (allocated s),
                     NotifyRecordingStatus ''recording_started'' trigger ''timed''],
        timers := timers s @ [\<lparr>delayMillis = d * 1000, triggerType = trigger\<rparr>]\<rparr>)"
  using assms
  by (simp add: triggerRecording_def triggerRecording_try_def startRecording_clean
      succeeded_def emit_def isContinuous_def recordingMode_def Let_def)

lemma triggerRecording_continuous:
  assumes "recording s = None" and "startsCleanly env" and "isContinuous d"
  shows "triggerRecording trigger d env s =
     (Inr succeeded,
      s\<lparr>recording := Some (allocated s), allocated := Suc (allocated s),
        effects := effects s @ [RequestPermissions, SetAudioMode, NewRecording (allocated s),
                     PrepareToRecord (allocated s), StartAsync (allocated s),
                     NotifyRecordingStatus ''recording_started'' trigger ''continuous'']\<rparr>)"
  using assms
  by (auto simp: triggerRecording_def triggerRecording_try_def startRecording_clean
      succeeded_def emit_def recordingMode_def Let_def split: option.splits)

lemma triggerRecording_continuous_timers:
  assumes "isContinuous d"
  shows "timers (snd (triggerRecording trigger d env s)) = timers s"
proof -
  obtain r s1 where st: "startRecording env s = (r, s1)" by (cases "startRecording env s")
  then have "timers s1 = timers s" using startRecording_timers [of env s] by simp
  then show ?thesis using assms st
    by (auto simp: triggerRecording_def triggerRecording_try_def emit_def Let_def
        split: sum.splits option.splits)
qed

text \<open>
  A timed trigger on an idle recorder, with a collaborator that lets the start go
  through, registers an auto-stop timer. When \<open>stopRecording\<close> then completes, whatever
  the collaborators answer during it, \<open>recording\<close> is \<open>null\<close>; an auto-stop callback that
  runs in that state, with no start in between, finds the handle absent, returns without
  throwing and changes nothing, so the session's handle has been released at most once.
  A callback that finds a handle whose status query does not report recording likewise
  does nothing.
\<close>

lemma autoStop_without_restart:
  assumes "recording s = None" and "startsCleanly env" and "d \<noteq> 0"
    and "StopAndUnload (allocated s) \<notin> set (effects s)"
    and "triggerRecording trigger (Some d) env s = (r1, s1)"
    and "stopRecording stopenv s1 = (r2, s2)"
  shows "timers s1 = timers s @ [\<lparr>delayMillis = d * 1000, triggerType = trigger\<rparr>] \<and>
         recording s1 = Some (allocated s) \<and>
         recording s2 = None \<and>
         autoStop cb s2 = (Inr (), s2) \<and>
         count_list (effects (snd (autoStop cb s2))) (StopAndUnload (allocated s)) \<le> 1 \<and>
         (\<not> reportsRecording (callbackStatus cb) \<longrightarrow> autoStop cb s1 = (Inr (), s1))"
proof -
  have s1: "s1 = s\<lparr>recording := Some (allocated s), allocated := Suc (allocated s),
        effects := effects s @ [RequestPermissions, SetAudioMode, NewRecording (allocated s),
                     PrepareToRecord (allocated s), StartAsync (allocated s),
                     NotifyRecordingStatus ''recording_started'' trigger ''timed''],
        timers := timers s @ [\<lparr>delayMillis = d * 1000, triggerType = trigger\<rparr>]\<rparr>"
    using triggerRecording_timed [OF assms(1,2,3), of trigger] assms(5) by simp
  have t: "timers s1 = timers s @ [\<lparr>delayMillis = d * 1000, triggerType = trigger\<rparr>]"
    and h: "recording s1 = Some (allocated s)"
    by (simp_all add: s1)
  have none: "recording s2 = None"
    using stopRecording_clears [of stopenv s1] assms(6) by simp
  have cb: "autoStop cb s2 = (Inr (), s2)"
    using none by (rule autoStop_idle)
  have "count_list (effects s1) (StopAndUnload (allocated s)) = 0"
    using assms(4) by (simp add: s1 count_list_0_iff)
  then have "count_list (effects s2) (StopAndUnload (allocated s)) \<le> 1"
    using stopRecording_releases_once [OF h, of stopenv] assms(6) by simp
  then show ?thesis using t h none cb autoStop_not_recording [of cb s1] by simp
qed

lemma autoStop_without_restart_example:
  "autoStop \<lparr>callbackStatus = Inr active, callbackStop = cleanStop\<rparr>
     (snd (stopRecording cleanStop (snd (triggerRecording ''dashboard'' (Some 5) cleanEnv idle))))
   = (Inr (), snd (stopRecording cleanStop (snd (triggerRecording ''dashboard'' (Some 5) cleanEnv idle)))) \<and>
   autoStop \<lparr>callbackStatus = Inr inactive, callbackStop = cleanStop\<rparr>
     (snd (triggerRecording ''dashboard'' (Some 5) cleanEnv idle))
   = (Inr (), snd (triggerRecording ''dashboard'' (Some 5) cleanEnv idle)) \<and>
   effects (snd (stopRecording cleanStop (snd (triggerRecording ''dashboard'' (Some 5) cleanEnv idle))))
   = [RequestPermissions, SetAudioMode, NewRecording 0, PrepareToRecord 0, StartAsync 0,
      NotifyRecordingStatus ''recording_started'' ''dashboard'' ''timed'',
      StopAndUnload 0, UploadAudio ''file:///rec.m4a'' 5000]"
proof -
  have a: "recording idle = None" by (simp add: idle_def)
  have b: "startsCleanly cleanEnv"
    by (simp add: startsCleanly_def cleanEnv_def reportsRecording_def active_def)
  have c: "(5::int) \<noteq> 0" by simp
  have d: "StopAndUnload (allocated idle) \<notin> set (effects idle)" by (simp add: idle_def)
  have e: "triggerRecording ''dashboard'' (Some 5) cleanEnv idle =
     (fst (triggerRecording ''dashboard'' (Some 5) cleanEnv idle),
      snd (triggerRecording ''dashboard'' (Some 5) cleanEnv idle))" by simp
  have f: "stopRecording cleanStop (snd (triggerRecording ''dashboard'' (Some 5) cleanEnv idle)) =
     (fst (stopRecording cleanStop (snd (triggerRecording ''dashboard'' (Some 5) cleanEnv idle))),
      snd (stopRecording cleanStop (snd (triggerRecording ''dashboard'' (Some 5) cleanEnv idle))))"
    by simp
  have eff: "effects (snd (stopRecording cleanStop (snd (triggerRecording ''dashboard'' (Some 5) cleanEnv idle))))
   = [RequestPermissions, SetAudioMode, NewRecording 0, PrepareToRecord 0, StartAsync 0,
      NotifyRecordingStatus ''recording_started'' ''dashboard'' ''timed'',
      StopAndUnload 0, UploadAudio ''file:///rec.m4a'' 5000]"
    by (simp add: triggerRecording_timed [OF a b c, of "''dashboard''"])
       (simp add: stop_defs cleanStop_def active_def truthy_def idle_def Let_def)
  have st: "\<not> reportsRecording (callbackStatus \<lparr>callbackStatus = Inr inactive, callbackStop = cleanStop\<rparr>)"
    by (simp add: reportsRecording_def inactive_def)
  show ?thesis
    using autoStop_without_restart [OF a b c d e f,
        of "\<lparr>callbackStatus = Inr active, callbackStop = cleanStop\<rparr>"]
      autoStop_without_restart [OF a b c d e f,
        of "\<lparr>callbackStatus = Inr inactive, callbackStop = cleanStop\<rparr>"]
      eff st by simp
qed



lemma timedSession_eq:
  "timedSession =
     \<lparr>recording = Some 0, allocated = 1,
      effects = [RequestPermissions, SetAudioMode, NewRecording 0, PrepareToRecord 0, StartAsync 0,
                 NotifyRecordingStatus ''recording_started'' ''dashboard'' ''timed''],
      timers = [\<lparr>delayMillis = 5000, triggerType = ''dashboard''\<rparr>]\<rparr>"
proof -
  have i: "recording idle = None" by (simp add: idle_def)
  show ?thesis
    unfolding timedSession_def
    by (simp add: triggerRecording_timed [OF i startsCleanly_cleanEnv, of 5 "''dashboard''"])
       (simp add: idle_def)
qed

lemma stoppedSession_eq:
  "stoppedSession =
     \<lparr>recording = None, allocated = 1,
      effects = [RequestPermissions, SetAudioMode, NewRecording 0, PrepareToRecord 0, StartAsync 0,
                 NotifyRecordingStatus ''recording_started'' ''dashboard'' ''timed'',
                 StopAndUnload 0, UploadAudio ''file:///rec.m4a'' 5000],
      timers = [\<lparr>delayMillis = 5000, triggerType = ''dashboard''\<rparr>]\<rparr>"
  unfolding stoppedSession_def timedSession_eq
  by (simp add: stop_defs cleanStop_def active_def truthy_def Let_def)

lemma restartedSession_eq:
  "restartedSession =
     \<lparr>recording = Some 1, allocated = 2,
      effects = [RequestPermissions, SetAudioMode, NewRecording 0, PrepareToRecord 0, StartAsync 0,
                 NotifyRecordingStatus ''recording_started'' ''dashboard'' ''timed'',
                 StopAndUnload 0, UploadAudio ''file:///rec.m4a'' 5000,
                 RequestPermissions, SetAudioMode, NewRecording 1, PrepareToRecord 1, StartAsync 1,
                 NotifyRecordingStatus ''recording_started'' ''manual'' ''continuous''],
      timers = [\<lparr>delayMillis = 5000, triggerType = ''dashboard''\<rparr>]\<rparr>"
proof -
  have i: "recording stoppedSession = None" by (simp add: stoppedSession_eq)
  have c: "isContinuous None" by (simp add: isContinuous_def)
  show ?thesis
    unfolding restartedSession_def
    by (simp add: triggerRecording_continuous [OF i startsCleanly_cleanEnv c, of "''manual''"])
       (simp add: stoppedSession_eq)
qed

text \<open>
  Claim C6, evaluated on the source: a timed start from the dashboard registers an
  auto-stop timer; a stop completes before the timer fires and leaves \<open>recording\<close>
  \<open>null\<close>; a new continuous session is started, which registers no timer; then the
  timer of the first start fires. No timer was cancelled, and the callback tests the
  module variable, not the session it was registered for: it finds the new handle
  recording and stops it, releasing handle 1 and handing its artifact to the upload.
\<close>

theorem autoStop_stops_new_session:
  "timers timedSession = [\<lparr>delayMillis = 5000, triggerType = ''dashboard''\<rparr>] \<and>
   recording stoppedSession = None \<and>
   recording restartedSession = Some 1 \<and>
   timers restartedSession = timers timedSession \<and>
   autoStop firingTimer restartedSession =
     (Inr (),
      restartedSession
        \<lparr>recording := None,
          effects := effects restartedSession @
                       [StopAndUnload 1, UploadAudio ''file:///rec.m4a'' 5000]\<rparr>)"
  by (simp add: timedSession_eq stoppedSession_eq restartedSession_eq autoStop_def firingTimer_def
      active_def stop_defs cleanStop_def truthy_def Let_def)


lemma logged_Nil: "logged [] s = s"
  by (simp add: logged_def)

lemma startRecording_try_clean:
  assumes "recording s = None" and "startsCleanly env"
  shows "fst (startRecording_try env s) = Inr succeeded"
  using assms
  by (auto simp: startRecording_try_def checkExisting_def startFresh_def emit_def Let_def
      startsCleanly_def reportsRecording_def split: sum.splits)

lemma startRecordingConsole_clean:
  assumes "recording s = None" and "startsCleanly env"
  shows "startRecordingConsole env s = []"
  using startRecording_try_clean [OF assms]
  by (cases "startRecording_try env s") (simp add: startRecordingConsole_def succeeded_def)

lemma triggerRecordingConsole_clean:
  assumes "recording s = None" and "startsCleanly env"
  shows "triggerRecordingConsole trigger d env s = []"
  using startRecording_clean [OF assms]
  by (simp add: triggerRecordingConsole_def startRecordingConsole_clean [OF assms] succeeded_def)


lemma getDeviceIdConsole_hit:
  "cachedDeviceId s = Some d \<Longrightarrow> d \<noteq> [] \<Longrightarrow> getDeviceIdConsole env s = []"
  by (simp add: getDeviceIdConsole_def getDeviceId_try_def truthy_def)

lemma resolveIdent_hit:
  "cachedDeviceId (ident s) = Some d \<Longrightarrow> d \<noteq> [] \<Longrightarrow> resolveIdent env s = (d, s)"
  by (simp add: resolveIdent_def getDeviceId_hit getDeviceIdConsole_hit logged_Nil)

section \<open>Properties of the dashboard start command\<close>

lemma dropWhile_snoc_keep: "\<not> P c \<Longrightarrow> dropWhile P (xs @ [c]) = dropWhile P xs @ [c]"
  by (induction xs) auto

lemma trim_Cons: "\<not> isWhiteSpace c \<Longrightarrow> \<exists>cs'. trim (c # cs) = c # cs'"
proof -
  assume c: "\<not> isWhiteSpace c"
  have "dropWhile isWhiteSpace (rev cs @ [c]) = dropWhile isWhiteSpace (rev cs) @ [c]"
    using c by (rule dropWhile_snoc_keep)
  then show ?thesis using c by (simp add: trim_def)
qed

lemma not_isHtml:
  assumes "\<not> isWhiteSpace c" and "lowerChar c \<noteq> CHR ''<''"
  shows "\<not> isHtml (c # cs)"
proof -
  obtain cs' where "trim (c # cs) = c # cs'" using trim_Cons [OF assms(1)] by blast
  then show ?thesis using assms(2)
    by (simp add: isHtml_def startsWith_def toLowerCase_def)
qed

lemma isHtml_json: \<open>\<not> isHtml ''{"hasCommand":true,"action":"start","durationSeconds":0}''\<close>
  by (rule not_isHtml) (simp_all add: isWhiteSpace_def lowerChar_def)

lemma getDeviceId_acme: "getDeviceId (metadataEnv m) acmeIdent = (''Acme_Model1_iOS'', acmeIdent)"
  by (simp add: getDeviceId_def getDeviceId_try_def truthy_def acmeIdent_def)

lemma dispatch_start_zero:
  "dispatchCommand (respond st tx p) (ParsedValue (startCommand (Some 0))) idleApp =
     (Inr (), idleApp\<lparr>audio := snd (triggerRecording ''dashboard'' (Some 30) cleanEnv idle)\<rparr>)"
proof -
  have i: "recording idle = None" by (simp add: idle_def)
  note t = triggerRecording_timed [OF i startsCleanly_cleanEnv, of 30 "''dashboard''"]
  have e: "triggerEnv (respond st tx p) = cleanEnv" "audio idleApp = idle"
    by (simp_all add: respond_def idleApp_def)
  have c: "hasCommand (startCommand (Some 0))" "truthy (Some ''start'') = Some ''start''"
    "action (startCommand (Some 0)) = Some ''start''"
    "dispatchDuration (durationSeconds (startCommand (Some 0))) = 30"
    by (simp_all add: startCommand_def truthy_def dispatchDuration_def)
  have w: "triggerRecordingConsole ''dashboard'' (Some 30) cleanEnv idle = []"
    using i startsCleanly_cleanEnv by (rule triggerRecordingConsole_clean)
  show ?thesis
    unfolding dispatchCommand_def
    by (simp add: c e t w logged_Nil succeeded_def)
qed

lemma poll_start_zero:
  \<open>snd (checkForCommands
      (respond 200 ''{"hasCommand":true,"action":"start","durationSeconds":0}''
         (Some (ParsedValue (startCommand (Some 0))))) idleApp)
    = idleApp\<lparr>audio := snd (triggerRecording ''dashboard'' (Some 30) cleanEnv idle)\<rparr>\<close>
proof -
  let ?env = \<open>respond 200 ''{"hasCommand":true,"action":"start","durationSeconds":0}''
         (Some (ParsedValue (startCommand (Some 0))))\<close>
  have g: "resolveIdent ?env idleApp = (''Acme_Model1_iOS'', idleApp)"
    by (rule resolveIdent_hit) (simp_all add: idleApp_def acmeIdent_def)
  have rb: "readBody ?env \<lparr>httpStatus = 200, responseText =
        Inr ''{\"hasCommand\":true,\"action\":\"start\",\"durationSeconds\":0}''\<rparr> idleApp
      = (Some (ParsedValue (startCommand (Some 0))), idleApp)"
    by (simp add: readBody_def isHtml_json) (simp add: respond_def)
  have f: "fetchReply ?env ''Acme_Model1_iOS'' = Inr \<lparr>httpStatus = 200, responseText =
        Inr ''{\"hasCommand\":true,\"action\":\"start\",\"durationSeconds\":0}''\<rparr>"
    by (simp add: respond_def)
  show ?thesis
    by (simp add: checkForCommands_def checkForCommands_try_def pollOnce_try_def g f rb
        dispatch_start_zero)
qed

text \<open>
  Claim C2, as the specification states it: the dispatcher defaults the duration only
  when the field is absent or \<open>null\<close> (\<open>??\<close>), so a start command carrying
  \<open>durationSeconds = 0\<close> begins a continuous recording with no deferred auto-stop. In the
  source the default is taken with \<open>||\<close>: for \<open>durationSeconds = 0\<close> the duration is 30,
  and a poll cycle that receives \<open>{"hasCommand":true,"action":"start","durationSeconds":0}\<close> on
  an idle recorder registers an auto-stop timer of 30000 ms.
\<close>

theorem dashboard_zero_duration_counterexample:
  \<open>dispatchDuration (Some 0) = 30 \<and> spec_dispatchDuration (Some 0) = 0 \<and>
   timers (audio (snd (checkForCommands
      (respond 200 ''{"hasCommand":true,"action":"start","durationSeconds":0}''
         (Some (ParsedValue (startCommand (Some 0))))) idleApp)))
     = [\<lparr>delayMillis = 30000, triggerType = ''dashboard''\<rparr>]\<close>
proof -
  have i: "recording idle = None" by (simp add: idle_def)
  have "timers (snd (triggerRecording ''dashboard'' (Some 30) cleanEnv idle))
      = [\<lparr>delayMillis = 30000, triggerType = ''dashboard''\<rparr>]"
    using triggerRecording_timed [OF i startsCleanly_cleanEnv, of 30 "''dashboard''"]
    by (simp add: idle_def)
  then show ?thesis
    by (simp add: poll_start_zero dispatchDuration_def spec_dispatchDuration_def)
qed

text \<open>
  Claim C2, amended: the dispatcher computes \<open>duration = durationSeconds || 30\<close>, which
  is 30 when the field is absent, \<open>null\<close> or 0 and the field's value otherwise, so the
  duration it passes is never continuous: a dashboard start command is a
  \<open>triggerRecording('dashboard', duration)\<close>, and one that starts a fresh session on an
  idle recorder registers an auto-stop timer of \<open>duration * 1000\<close> ms. A trigger invoked
  directly with duration \<open>null\<close> or 0 registers no timer, and when its start goes through
  it begins a recording in continuous mode.
\<close>

theorem dashboard_start_duration:
  "dispatchDuration None = 30 \<and> dispatchDuration (Some 0) = 30 \<and>
   (n \<noteq> 0 \<longrightarrow> dispatchDuration (Some n) = n) \<and>
   \<not> isContinuous (Some (dispatchDuration d)) \<and>
   (hasCommand c \<and> (action c = Some ''start'' \<or> action c = Some ''start recording'') \<longrightarrow>
      audio (snd (dispatchCommand env (ParsedValue c) s)) =
        snd (triggerRecording ''dashboard'' (Some (dispatchDuration (durationSeconds c)))
               (triggerEnv env) (audio s)) \<and>
      (recording (audio s) = None \<and> startsCleanly (triggerEnv env) \<longrightarrow>
         timers (audio (snd (dispatchCommand env (ParsedValue c) s))) =
           timers (audio s) @ [\<lparr>delayMillis = dispatchDuration (durationSeconds c) * 1000,
                                 triggerType = ''dashboard''\<rparr>])) \<and>
   (isContinuous t \<longrightarrow>
      timers (snd (triggerRecording trigger t tenv a)) = timers a \<and>
      (recording a = None \<and> startsCleanly tenv \<longrightarrow>
         triggerRecording trigger t tenv a =
           (Inr succeeded,
            a\<lparr>recording := Some (allocated a), allocated := Suc (allocated a),
              effects := effects a @ [RequestPermissions, SetAudioMode, NewRecording (allocated a),
                     PrepareToRecord (allocated a), StartAsync (allocated a),
                     NotifyRecordingStatus ''recording_started'' trigger ''continuous'']\<rparr>)))"
proof -
  have d1: "dispatchDuration None = 30" "dispatchDuration (Some 0) = 30"
    "n \<noteq> 0 \<longrightarrow> dispatchDuration (Some n) = n"
    by (simp_all add: dispatchDuration_def)
  have nz: "dispatchDuration d \<noteq> 0"
    by (simp add: dispatchDuration_def split: option.splits)
  then have d2: "\<not> isContinuous (Some (dispatchDuration d))"
    by (simp add: isContinuous_def)
  have disp: "audio (snd (dispatchCommand env (ParsedValue c) s)) =
        snd (triggerRecording ''dashboard'' (Some (dispatchDuration (durationSeconds c)))
               (triggerEnv env) (audio s))"
    if "hasCommand c" and "action c = Some ''start'' \<or> action c = Some ''start recording''"
    using that
    by (auto simp: dispatchCommand_def truthy_def logged_def Let_def split: prod.splits sum.splits)
  have tm: "timers (audio (snd (dispatchCommand env (ParsedValue c) s))) =
           timers (audio s) @ [\<lparr>delayMillis = dispatchDuration (durationSeconds c) * 1000,
                                 triggerType = ''dashboard''\<rparr>]"
    if "hasCommand c" and "action c = Some ''start'' \<or> action c = Some ''start recording''"
      and "recording (audio s) = None" and "startsCleanly (triggerEnv env)"
  proof -
    have "dispatchDuration (durationSeconds c) \<noteq> 0"
      by (simp add: dispatchDuration_def split: option.splits)
    then show ?thesis
      using disp [OF that(1,2)] triggerRecording_timed [OF that(3,4), of _ "''dashboard''"]
      by simp
  qed
  have cont: "timers (snd (triggerRecording trigger t tenv a)) = timers a" if "isContinuous t"
    using that by (rule triggerRecording_continuous_timers)
  have cont2: "triggerRecording trigger t tenv a =
           (Inr succeeded,
            a\<lparr>recording := Some (allocated a), allocated := Suc (allocated a),
              effects := effects a @ [RequestPermissions, SetAudioMode, NewRecording (allocated a),
                     PrepareToRecord (allocated a), StartAsync (allocated a),
                     NotifyRecordingStatus ''recording_started'' trigger ''continuous'']\<rparr>)"
    if "isContinuous t" and "recording a = None" and "startsCleanly tenv"
    using that(2,3,1) by (rule triggerRecording_continuous)
  show ?thesis
  proof (intro conjI impI)
    show "dispatchDuration None = 30" "dispatchDuration (Some 0) = 30" by (rule d1)+
    show "dispatchDuration (Some n) = n" if "n \<noteq> 0" using that d1(3) by simp
    show "\<not> isContinuous (Some (dispatchDuration d))" by (rule d2)
  next
    assume h: "hasCommand c \<and> (action c = Some ''start'' \<or> action c = Some ''start recording'')"
    show "audio (snd (dispatchCommand env (ParsedValue c) s)) =
        snd (triggerRecording ''dashboard'' (Some (dispatchDuration (durationSeconds c)))
               (triggerEnv env) (audio s))"
      using h disp by simp
    assume i: "recording (audio s) = None \<and> startsCleanly (triggerEnv env)"
    show "timers (audio (snd (dispatchCommand env (ParsedValue c) s))) =
           timers (audio s) @ [\<lparr>delayMillis = dispatchDuration (durationSeconds c) * 1000,
                                 triggerType = ''dashboard''\<rparr>]"
      using h i tm by simp
  next
    assume k: "isContinuous t"
    show "timers (snd (triggerRecording trigger t tenv a)) = timers a"
      using k by (rule cont)
    assume i: "recording a = None \<and> startsCleanly tenv"
    show "triggerRecording trigger t tenv a =
           (Inr succeeded,
            a\<lparr>recording := Some (allocated a), allocated := Suc (allocated a),
              effects := effects a @ [RequestPermissions, SetAudioMode, NewRecording (allocated a),
                     PrepareToRecord (allocated a), StartAsync (allocated a),
                     NotifyRecordingStatus ''recording_started'' trigger ''continuous'']\<rparr>)"
      using k i cont2 by simp
  qed
qed


theorem dashboard_start_duration_witness:
  "dispatchDuration (Some 5) = 5 \<and>
   timers (audio (snd (dispatchCommand (respond 200 ''{}'' None)
                         (ParsedValue (startCommand (Some 0))) idleApp))) =
     [\<lparr>delayMillis = 30000, triggerType = ''dashboard''\<rparr>] \<and>
   timers (snd (triggerRecording ''manual'' None cleanEnv idle)) = [] \<and>
   timers (snd (triggerRecording ''manual'' (Some 0) cleanEnv idle)) = []"
proof -
  have c: "hasCommand (startCommand (Some 0)) \<and>
      (action (startCommand (Some 0)) = Some ''start'' \<or>
       action (startCommand (Some 0)) = Some ''start recording'')"
    by (simp add: startCommand_def)
  have i: "recording (audio idleApp) = None \<and> startsCleanly (triggerEnv (respond 200 ''{}'' None))"
    by (simp add: idleApp_def idle_def respond_def startsCleanly_cleanEnv)
  have d: "dispatchDuration (durationSeconds (startCommand (Some 0))) = 30"
    by (simp add: startCommand_def dispatchDuration_def)
  have n: "isContinuous None" "isContinuous (Some 0)" by (simp_all add: isContinuous_def)
  have t: "timers (audio idleApp) = []" "timers idle = []" by (simp_all add: idleApp_def idle_def)
  show ?thesis
    using dashboard_start_duration [of 5 "Some 0" "startCommand (Some 0)" "respond 200 ''{}'' None"
        idleApp None "''manual''" cleanEnv idle]
      dashboard_start_duration [of 5 "Some 0" "startCommand (Some 0)" "respond 200 ''{}'' None"
        idleApp "Some 0" "''manual''" cleanEnv idle]
    by (simp add: c i d n t)
qed

section \<open>Properties of the polling cadence\<close>

lemma tickCycles_later:
  "c \<in> set (tickCycles registered ds) \<Longrightarrow> registered + 2000 \<le> cycleStart c"
proof (induction ds arbitrary: registered)
  case Nil
  then show ?case by simp
next
  case (Cons d ds)
  from Cons.prems have "c = \<lparr>cycleStart = registered + 2000, cycleEnd = registered + 2000 + d\<rparr>
      \<or> c \<in> set (tickCycles (registered + 2000) ds)" by simp
  then show ?case
  proof
    assume "c = \<lparr>cycleStart = registered + 2000, cycleEnd = registered + 2000 + d\<rparr>"
    then show ?thesis by simp
  next
    assume "c \<in> set (tickCycles (registered + 2000) ds)"
    then have "registered + 2000 + 2000 \<le> cycleStart c" by (rule Cons.IH)
    then show ?thesis by simp
  qed
qed

lemma inFlight_before_first_tick:
  assumes "t < registered + 2000"
  shows "inFlight (tickCycles registered ds) t = []"
proof -
  have "\<not> (cycleStart c \<le> t \<and> t < cycleEnd c)" if "c \<in> set (tickCycles registered ds)" for c
    using tickCycles_later [OF that] assms by simp
  then show ?thesis by (simp add: inFlight_def filter_empty_conv)
qed

lemma tickCycles_no_overlap:
  "\<forall>d \<in> set ds. d < 2000 \<Longrightarrow> length (inFlight (tickCycles registered ds) t) \<le> 1"
proof (induction ds arbitrary: registered)
  case Nil
  then show ?case by (simp add: inFlight_def)
next
  case (Cons d ds)
  show ?case
  proof (cases "t < registered + 2000 + 2000")
    case True
    then have "inFlight (tickCycles (registered + 2000) ds) t = []"
      by (rule inFlight_before_first_tick)
    then show ?thesis by (simp add: inFlight_def)
  next
    case False
    then have "\<not> t < registered + 2000 + d" using Cons.prems by simp
    then have "inFlight (tickCycles registered (d # ds)) t = inFlight (tickCycles (registered + 2000) ds) t"
      by (simp add: inFlight_def)
    then show ?thesis using Cons.IH [of "registered + 2000"] Cons.prems by simp
  qed
qed

text \<open>
  Claim C8, as the specification states it: at most one poll cycle is in flight at any
  time, for every duration a poll may take. With an immediate poll of 100 ms and a
  first timer cycle that takes 5000 ms, the cycle started by the tick at 2100 ms is
  still in flight when the tick at 4100 ms starts the next one.
\<close>

theorem pollingCycles_overlap_counterexample:
  "inFlight (pollingCycles 0 [100, 5000, 100]) 4100 =
     [\<lparr>cycleStart = 2100, cycleEnd = 7100\<rparr>, \<lparr>cycleStart = 4100, cycleEnd = 4200\<rparr>] \<and>
   \<not> length (inFlight (pollingCycles 0 [100, 5000, 100]) 4100) \<le> 1"
  by (simp add: pollingCycles_def inFlight_def)

text \<open>
  Claim C8, amended: the immediate poll at activation is awaited before the timer is
  registered, so it overlaps no later cycle however long it takes; after that a tick
  starts a cycle every 2000 ms whether or not the previous cycle has completed, and at
  most one cycle is in flight at any time provided every cycle started by the timer
  completes in less than 2000 ms.
\<close>

theorem pollingCycles_no_overlap:
  assumes "\<forall>d \<in> set (tl durations). d < 2000"
  shows "length (inFlight (pollingCycles activation durations) t) \<le> 1"
proof (cases durations)
  case Nil
  then show ?thesis by (simp add: pollingCycles_def inFlight_def)
next
  case (Cons d0 ds)
  then have ds: "\<forall>d \<in> set ds. d < 2000" using assms by simp
  show ?thesis
  proof (cases "t < activation + d0 + 2000")
    case True
    then have "inFlight (tickCycles (activation + d0) ds) t = []"
      by (rule inFlight_before_first_tick)
    then show ?thesis using Cons by (simp add: pollingCycles_def inFlight_def)
  next
    case False
    then have "inFlight (pollingCycles activation durations) t = inFlight (tickCycles (activation + d0) ds) t"
      using Cons by (simp add: pollingCycles_def inFlight_def)
    then show ?thesis using tickCycles_no_overlap [OF ds] by simp
  qed
qed

theorem pollingCycles_no_overlap_witness:
  "length (inFlight (pollingCycles 0 [5000, 1500, 300]) 7100) \<le> 1 \<and>
   inFlight (pollingCycles 0 [5000, 1500, 300]) 7100 = [\<lparr>cycleStart = 7000, cycleEnd = 8500\<rparr>]"
  using pollingCycles_no_overlap [of "[5000, 1500, 300]" 0 7100]
  by (simp add: pollingCycles_def inFlight_def)


section \<open>Properties of one poll cycle\<close>






































end
